theory Spec2Isabelle
  imports Main "HOL-Library.Multiset" "HOL-Library.Sublist"
begin

section \<open>Documents of the store (the interfaces of mongo-storage.ts)\<close>

text \<open>
  Every interface of the storage module is a record. Field names carry the entity as a
  prefix (\<open>user_id\<close>, \<open>product_id\<close>, ...) because the interfaces share field names.
  The numbers of the source (\<open>id\<close>, \<open>businessId\<close>, \<open>stock\<close>, \<open>quantity\<close>, ...) are integers,
  a \<open>Date\<close> is an integer time stamp, and a field marked optional in the interface is an
  \<open>option\<close>. The \<open>password\<close> of a user is optional as well: the projection
  \<open>{ password: 0 }\<close> and the value returned by \<open>createUser\<close> are user documents without it.
\<close>

record Permissions =
  perm_pos :: bool
  perm_inventory :: bool
  perm_customers :: bool
  perm_reports :: bool
  perm_employees :: bool
  perm_settings :: bool

record MongoUser =
  user_id :: int
  user_businessId :: int
  user_username :: string
  user_email :: string
  user_password :: "string option"
  user_firstName :: string
  user_lastName :: string
  user_role :: string
  user_isActive :: bool
  user_permissions :: Permissions
  user_createdAt :: int

record MongoBusiness =
  business_id :: int
  business_name :: string
  business_email :: string
  business_phone :: "string option"
  business_address :: "string option"
  business_taxRate :: string
  business_currency :: string
  business_createdAt :: int

record MongoProduct =
  product_id :: int
  product_businessId :: int
  product_categoryId :: "int option"
  product_name :: string
  product_description :: "string option"
  product_sku :: "string option"
  product_barcode :: "string option"
  product_price :: string
  product_cost :: string
  product_stock :: int
  product_lowStockThreshold :: int
  product_isActive :: bool
  product_createdAt :: int

record MongoCustomer =
  customer_id :: int
  customer_businessId :: int
  customer_firstName :: string
  customer_lastName :: string
  customer_email :: "string option"
  customer_phone :: "string option"
  customer_address :: "string option"
  customer_loyaltyPoints :: int
  customer_totalSpent :: string
  customer_createdAt :: int

record MongoTransaction =
  tx_id :: int
  tx_businessId :: int
  tx_customerId :: "int option"
  tx_userId :: int
  tx_transactionNumber :: string
  tx_subtotal :: string
  tx_taxAmount :: string
  tx_total :: string
  tx_paymentMethod :: string
  tx_status :: string
  tx_createdAt :: int

record MongoCategory =
  category_id :: int
  category_businessId :: int
  category_name :: string
  category_description :: "string option"
  category_createdAt :: int

record MongoTransactionItem =
  item_id :: int
  item_transactionId :: int
  item_productId :: int
  item_quantity :: int
  item_unitPrice :: string
  item_total :: string

text \<open>
  The database: one list of documents per collection, in the store's natural order, and
  the \<open>counters\<close> collection as a list of \<open>(_id, seq)\<close> documents.
\<close>

record db =
  coll_counters :: "(string \<times> int) list"
  coll_users :: "MongoUser list"
  coll_businesses :: "MongoBusiness list"
  coll_categories :: "MongoCategory list"
  coll_products :: "MongoProduct list"
  coll_customers :: "MongoCustomer list"
  coll_transactions :: "MongoTransaction list"
  coll_transactionItems :: "MongoTransactionItem list"

definition empty_db :: db where
  "empty_db = \<lparr>coll_counters = [], coll_users = [], coll_businesses = [],
     coll_categories = [], coll_products = [], coll_customers = [],
     coll_transactions = [], coll_transactionItems = []\<rparr>"

section \<open>The collection operations the storage class calls\<close>

text \<open>
  \<open>find(q).toArray()\<close> keeps the documents that satisfy the query, \<open>findOne(q)\<close> returns
  the first of them, \<open>countDocuments(q)\<close> counts them, \<open>insertOne\<close> appends,
  \<open>updateOne(q, u)\<close> changes the first document that satisfies the query and
  \<open>deleteOne(q)\<close> removes it and reports how many documents it removed.
\<close>

definition find_docs :: "('a \<Rightarrow> bool) \<Rightarrow> 'a list \<Rightarrow> 'a list" where
  "find_docs q xs = filter q xs"

definition findOne :: "('a \<Rightarrow> bool) \<Rightarrow> 'a list \<Rightarrow> 'a option" where
  "findOne q xs = List.find q xs"

definition countDocuments :: "('a \<Rightarrow> bool) \<Rightarrow> 'a list \<Rightarrow> nat" where
  "countDocuments q xs = length (filter q xs)"

definition insertOne :: "'a \<Rightarrow> 'a list \<Rightarrow> 'a list" where
  "insertOne x xs = xs @ [x]"

fun updateOne :: "('a \<Rightarrow> bool) \<Rightarrow> ('a \<Rightarrow> 'a) \<Rightarrow> 'a list \<Rightarrow> 'a list" where
  "updateOne q u [] = []"
| "updateOne q u (x # xs) = (if q x then u x # xs else x # updateOne q u xs)"

fun deleteOne :: "('a \<Rightarrow> bool) \<Rightarrow> 'a list \<Rightarrow> nat \<times> 'a list" where
  "deleteOne q [] = (0, [])"
| "deleteOne q (x # xs) =
     (if q x then (1, xs) else (case deleteOne q xs of (n, ys) \<Rightarrow> (n, x # ys)))"

section \<open>The id allocator\<close>

text \<open>
  \<open>findOneAndUpdate({ _id: collection }, { $inc: { seq: 1 } }, { upsert: true,
  returnDocument: 'after' })\<close>: the counter document of the namespace is incremented, or
  inserted with \<open>seq = 1\<close> when the namespace has none.
\<close>

fun inc_seq :: "string \<Rightarrow> (string \<times> int) list \<Rightarrow> (string \<times> int) list" where
  "inc_seq c [] = [(c, 1)]"
| "inc_seq c ((k, s) # cs) = (if k = c then (k, s + 1) # cs else (k, s) # inc_seq c cs)"

text \<open>
  \<open>getNextId\<close> returns \<open>counter?.value?.seq || counter?.seq || 1\<close>: the sequence number
  after the increment, and 1 when that number is missing or 0 (0 is falsy).
\<close>

definition getNextId :: "string \<Rightarrow> db \<Rightarrow> int \<times> db" where
  "getNextId collection d =
     (let cs = inc_seq collection (coll_counters d) in
      ((case map_of cs collection of
          None \<Rightarrow> 1
        | Some s \<Rightarrow> if s = 0 then 1 else s),
       d\<lparr>coll_counters := cs\<rparr>))"

section \<open>Products, categories and customers\<close>

text \<open>
  The methods of \<open>MongoStorage\<close>, grouped by collection. Store errors are not
  modelled, and \<open>getBusiness\<close>, \<open>updateBusiness\<close>, \<open>updateProduct\<close>,
  \<open>updateCustomer\<close>, \<open>getAllUsers\<close> and \<open>getDashboardStats\<close> are left out: no
  property below depends on them.
\<close>

definition getCategories :: "int \<Rightarrow> db \<Rightarrow> MongoCategory list" where
  "getCategories businessId d =
     find_docs (\<lambda>c. category_businessId c = businessId) (coll_categories d)"

definition getProducts :: "int \<Rightarrow> db \<Rightarrow> MongoProduct list" where
  "getProducts businessId d =
     find_docs (\<lambda>p. product_businessId p = businessId \<and> product_isActive p) (coll_products d)"

definition getProduct :: "int \<Rightarrow> int \<Rightarrow> db \<Rightarrow> MongoProduct option" where
  "getProduct i businessId d =
     findOne (\<lambda>p. product_id p = i \<and> product_businessId p = businessId) (coll_products d)"

definition getLowStockProducts :: "int \<Rightarrow> db \<Rightarrow> MongoProduct list" where
  "getLowStockProducts businessId d =
     find_docs (\<lambda>p. product_businessId p = businessId \<and> product_isActive p \<and>
                     product_stock p \<le> product_lowStockThreshold p)
       (coll_products d)"

definition getCustomers :: "int \<Rightarrow> db \<Rightarrow> MongoCustomer list" where
  "getCustomers businessId d =
     find_docs (\<lambda>c. customer_businessId c = businessId) (coll_customers d)"

definition getCustomer :: "int \<Rightarrow> int \<Rightarrow> db \<Rightarrow> MongoCustomer option" where
  "getCustomer i businessId d =
     findOne (\<lambda>c. customer_id c = i \<and> customer_businessId c = businessId) (coll_customers d)"

text \<open>
  The payload of a \<open>create\<close> is the entity without \<open>id\<close> and \<open>createdAt\<close>; the spread
  \<open>{ ...payload, id, createdAt: new Date() }\<close> sets both, so the model takes a whole
  record and overwrites the two fields. \<open>now\<close> is the clock's reading.
\<close>

definition createCategory :: "int \<Rightarrow> MongoCategory \<Rightarrow> db \<Rightarrow> MongoCategory \<times> db" where
  "createCategory now category d =
     (case getNextId ''categories'' d of (i, d1) \<Rightarrow>
        let newCategory = category\<lparr>category_id := i, category_createdAt := now\<rparr>
        in (newCategory, d1\<lparr>coll_categories := insertOne newCategory (coll_categories d1)\<rparr>))"

definition createProduct :: "int \<Rightarrow> MongoProduct \<Rightarrow> db \<Rightarrow> MongoProduct \<times> db" where
  "createProduct now product d =
     (case getNextId ''products'' d of (i, d1) \<Rightarrow>
        let newProduct = product\<lparr>product_id := i, product_createdAt := now\<rparr>
        in (newProduct, d1\<lparr>coll_products := insertOne newProduct (coll_products d1)\<rparr>))"

definition createCustomer :: "int \<Rightarrow> MongoCustomer \<Rightarrow> db \<Rightarrow> MongoCustomer \<times> db" where
  "createCustomer now customer d =
     (case getNextId ''customers'' d of (i, d1) \<Rightarrow>
        let newCustomer = customer\<lparr>customer_id := i, customer_createdAt := now\<rparr>
        in (newCustomer, d1\<lparr>coll_customers := insertOne newCustomer (coll_customers d1)\<rparr>))"

definition createBusiness :: "int \<Rightarrow> MongoBusiness \<Rightarrow> db \<Rightarrow> MongoBusiness \<times> db" where
  "createBusiness now business d =
     (case getNextId ''businesses'' d of (i, d1) \<Rightarrow>
        let newBusiness = business\<lparr>business_id := i, business_createdAt := now\<rparr>
        in (newBusiness, d1\<lparr>coll_businesses := insertOne newBusiness (coll_businesses d1)\<rparr>))"

section \<open>Users and credentials\<close>

text \<open>
  The bcrypt library is a parameter: \<open>bcrypt_hash data saltRounds salt\<close> is
  \<open>bcrypt.hash(data, saltRounds)\<close> with the random salt the library draws made an
  argument, and \<open>bcrypt_compare data encrypted\<close> is \<open>bcrypt.compare\<close> on two strings.
  \<open>bcrypt.compare\<close> throws when the stored value is missing; the source catches that
  and leaves \<open>isPasswordValid\<close> false.
\<close>

record bcrypt =
  bcrypt_hash :: "string \<Rightarrow> nat \<Rightarrow> string \<Rightarrow> string"
  bcrypt_compare :: "string \<Rightarrow> string \<Rightarrow> bool"

text \<open>
  \<open>String.prototype.trim\<close> removes white space and line terminators from both ends.
  Strings are the bytes of their UTF-8 encoding, so the characters it removes are byte
  sequences: the six ASCII ones (tab, line feed, vertical tab, form feed, carriage
  return, space) and U+00A0, U+1680, U+2000 to U+200A, U+2028, U+2029, U+202F, U+205F,
  U+3000 and U+FEFF.
\<close>

definition white_space :: "string list" where
  "white_space =
     [[CHR 0x09], [CHR 0x0A], [CHR 0x0B], [CHR 0x0C], [CHR 0x0D], [CHR 0x20],
      [CHR 0xC2, CHR 0xA0],
      [CHR 0xE1, CHR 0x9A, CHR 0x80],
      [CHR 0xE2, CHR 0x80, CHR 0x80], [CHR 0xE2, CHR 0x80, CHR 0x81],
      [CHR 0xE2, CHR 0x80, CHR 0x82], [CHR 0xE2, CHR 0x80, CHR 0x83],
      [CHR 0xE2, CHR 0x80, CHR 0x84], [CHR 0xE2, CHR 0x80, CHR 0x85],
      [CHR 0xE2, CHR 0x80, CHR 0x86], [CHR 0xE2, CHR 0x80, CHR 0x87],
      [CHR 0xE2, CHR 0x80, CHR 0x88], [CHR 0xE2, CHR 0x80, CHR 0x89],
      [CHR 0xE2, CHR 0x80, CHR 0x8A],
      [CHR 0xE2, CHR 0x80, CHR 0xA8], [CHR 0xE2, CHR 0x80, CHR 0xA9],
      [CHR 0xE2, CHR 0x80, CHR 0xAF],
      [CHR 0xE2, CHR 0x81, CHR 0x9F],
      [CHR 0xE3, CHR 0x80, CHR 0x80],
      [CHR 0xEF, CHR 0xBB, CHR 0xBF]]"

text \<open>\<open>strip ws s\<close> removes from the front of \<open>s\<close> every leading sequence of \<open>ws\<close>.\<close>

function strip :: "string list \<Rightarrow> string \<Rightarrow> string" where
  "strip ws s =
     (case List.find (\<lambda>w. w \<noteq> [] \<and> take (length w) s = w) ws of
        None \<Rightarrow> s
      | Some w \<Rightarrow> strip ws (drop (length w) s))"
  by pat_completeness auto
termination
proof (relation "measure (\<lambda>(ws, s). length s)")
  show "wf (measure (\<lambda>(ws, s). length s))" by simp
next
  fix ws :: "string list" and s w :: string
  assume "List.find (\<lambda>w. w \<noteq> [] \<and> take (length w) s = w) ws = Some w"
  then have w: "w \<noteq> []" "take (length w) s = w"
    by (auto simp: find_Some_iff)
  then have "s \<noteq> []" by auto
  with w(1) show "((ws, drop (length w) s), (ws, s)) \<in> measure (\<lambda>(ws, s). length s)"
    by simp
qed

definition trim :: "string \<Rightarrow> string" where
  "trim s = rev (strip (map rev white_space) (rev (strip white_space s)))"

text \<open>The query of the login lookup: \<open>{ $or: [{ username }, { email }], isActive: true }\<close>.\<close>

definition login_query :: "string \<Rightarrow> MongoUser \<Rightarrow> bool" where
  "login_query trimmedUsername u =
     ((user_username u = trimmedUsername \<or> user_email u = trimmedUsername) \<and> user_isActive u)"

text \<open>The value of \<open>isPasswordValid\<close> after the \<open>try { bcrypt.compare } catch\<close> block.\<close>

definition bcrypt_valid :: "bcrypt \<Rightarrow> string \<Rightarrow> MongoUser \<Rightarrow> bool" where
  "bcrypt_valid bc password user =
     (case user_password user of None \<Rightarrow> False | Some h \<Rightarrow> bcrypt_compare bc password h)"

text \<open>The condition of the legacy branch: \<open>!isPasswordValid && user.password === password\<close>.\<close>

definition legacy_fallback :: "bcrypt \<Rightarrow> string \<Rightarrow> MongoUser \<Rightarrow> bool" where
  "legacy_fallback bc password user =
     (\<not> bcrypt_valid bc password user \<and> user_password user = Some password)"

definition getUserByUsernameAndPassword ::
  "bcrypt \<Rightarrow> string \<Rightarrow> string \<Rightarrow> string \<Rightarrow> db \<Rightarrow> MongoUser option \<times> db" where
  "getUserByUsernameAndPassword bc salt username password d =
     (let trimmedUsername = trim username in
      case findOne (login_query trimmedUsername) (coll_users d) of
        None \<Rightarrow> (None, d)
      | Some user \<Rightarrow>
          if legacy_fallback bc password user then
            (let saltRounds = 12;
                 hashedPassword = bcrypt_hash bc password saltRounds salt;
                 d' = d\<lparr>coll_users :=
                        updateOne (\<lambda>v. user_id v = user_id user)
                          (\<lambda>v. v\<lparr>user_password := Some hashedPassword\<rparr>) (coll_users d)\<rparr>
             in (Some (user\<lparr>user_password := Some hashedPassword\<rparr>), d'))
          else if \<not> bcrypt_valid bc password user then (None, d)
          else (Some user, d))"

datatype error = Error string

definition getEmployees :: "int \<Rightarrow> db \<Rightarrow> MongoUser list" where
  "getEmployees businessId d =
     map (\<lambda>u. u\<lparr>user_password := None\<rparr>)
       (find_docs (\<lambda>u. user_businessId u = businessId \<and> user_role u \<noteq> ''admin'')
          (coll_users d))"

definition getEmployeeCount :: "int \<Rightarrow> db \<Rightarrow> nat" where
  "getEmployeeCount businessId d =
     countDocuments (\<lambda>u. user_businessId u = businessId \<and> user_role u \<noteq> ''admin'')
       (coll_users d)"

definition updateUserPermissions ::
  "int \<Rightarrow> int \<Rightarrow> Permissions \<Rightarrow> db \<Rightarrow> (error + MongoUser) \<times> db" where
  "updateUserPermissions i businessId permissions d =
     (let q = (\<lambda>u. user_id u = i \<and> user_businessId u = businessId);
          d' = d\<lparr>coll_users :=
                 updateOne q (\<lambda>u. u\<lparr>user_permissions := permissions\<rparr>) (coll_users d)\<rparr>
      in case findOne q (coll_users d') of
           None \<Rightarrow> (Inl (Error ''User not found''), d')
         | Some user \<Rightarrow> (Inr (user\<lparr>user_password := None\<rparr>), d'))"

definition deleteEmployee :: "int \<Rightarrow> int \<Rightarrow> db \<Rightarrow> bool \<times> db" where
  "deleteEmployee i businessId d =
     (case deleteOne (\<lambda>u. user_id u = i \<and> user_businessId u = businessId \<and>
                          user_role u \<noteq> ''admin'') (coll_users d) of
        (deletedCount, us) \<Rightarrow> (deletedCount > 0, d\<lparr>coll_users := us\<rparr>))"

definition toggleEmployeeStatus :: "int \<Rightarrow> int \<Rightarrow> db \<Rightarrow> (error + MongoUser) \<times> db" where
  "toggleEmployeeStatus i businessId d =
     (let q = (\<lambda>u. user_id u = i \<and> user_businessId u = businessId) in
      case findOne q (coll_users d) of
        None \<Rightarrow> (Inl (Error ''User not found''), d)
      | Some u \<Rightarrow>
          let user = u\<lparr>user_password := None\<rparr>;
              newStatus = (\<not> user_isActive user)
          in (Inr (user\<lparr>user_isActive := newStatus\<rparr>),
              d\<lparr>coll_users :=
                  updateOne q (\<lambda>v. v\<lparr>user_isActive := newStatus\<rparr>) (coll_users d)\<rparr>))"

text \<open>
  The payload of \<open>createUser\<close>: a user without \<open>id\<close> and \<open>createdAt\<close>, with its plaintext
  password, and with or without \<open>permissions\<close> (the source reads
  \<open>user.permissions || defaultPermissions\<close>).
\<close>

record InsertUser =
  iu_businessId :: int
  iu_username :: string
  iu_email :: string
  iu_password :: string
  iu_firstName :: string
  iu_lastName :: string
  iu_role :: string
  iu_isActive :: bool
  iu_permissions :: "Permissions option"

definition admin_permissions :: Permissions where
  "admin_permissions = \<lparr>perm_pos = True, perm_inventory = True, perm_customers = True,
     perm_reports = True, perm_employees = True, perm_settings = True\<rparr>"

definition employee_permissions :: Permissions where
  "employee_permissions = \<lparr>perm_pos = True, perm_inventory = False, perm_customers = False,
     perm_reports = False, perm_employees = False, perm_settings = False\<rparr>"

definition createUser :: "bcrypt \<Rightarrow> string \<Rightarrow> int \<Rightarrow> InsertUser \<Rightarrow> db \<Rightarrow> MongoUser \<times> db" where
  "createUser bc salt now user d =
     (case getNextId ''users'' d of (i, d1) \<Rightarrow>
        let defaultPermissions =
              (if iu_role user = ''admin'' then admin_permissions else employee_permissions);
            saltRounds = 12;
            hashedPassword = bcrypt_hash bc (iu_password user) saltRounds salt;
            newUser = \<lparr>user_id = i, user_businessId = iu_businessId user,
              user_username = iu_username user, user_email = iu_email user,
              user_password = Some hashedPassword,
              user_firstName = iu_firstName user, user_lastName = iu_lastName user,
              user_role = iu_role user, user_isActive = iu_isActive user,
              user_permissions =
                (case iu_permissions user of None \<Rightarrow> defaultPermissions | Some p \<Rightarrow> p),
              user_createdAt = now\<rparr>;
            d2 = d1\<lparr>coll_users := insertOne newUser (coll_users d1)\<rparr>
        in (newUser\<lparr>user_password := None\<rparr>, d2))"


section \<open>The transaction ledger\<close>

record UserSummary =
  us_id :: int
  us_username :: string
  us_email :: string
  us_firstName :: string
  us_lastName :: string
  us_role :: string
  us_isActive :: bool

text \<open>
  A document of the result of \<open>getTransactions\<close>: the projected fields of the transaction,
  the summary of the first joined user and the first joined customer (\<open>None\<close> when the
  \<open>$lookup\<close> found nothing).
\<close>

record TransactionView =
  tv_transaction :: MongoTransaction
  tv_user :: "UserSummary option"
  tv_customer :: "MongoCustomer option"

definition arrayElemAt0 :: "'a list \<Rightarrow> 'a option" where
  "arrayElemAt0 xs = (case xs of [] \<Rightarrow> None | x # _ \<Rightarrow> Some x)"

definition user_summary :: "MongoUser \<Rightarrow> UserSummary" where
  "user_summary u = \<lparr>us_id = user_id u, us_username = user_username u,
     us_email = user_email u, us_firstName = user_firstName u,
     us_lastName = user_lastName u, us_role = user_role u, us_isActive = user_isActive u\<rparr>"

definition project_transaction :: "db \<Rightarrow> MongoTransaction \<Rightarrow> TransactionView" where
  "project_transaction d t =
     (let user = filter (\<lambda>u. user_id u = tx_userId t) (coll_users d);
          customer = (case tx_customerId t of
                        None \<Rightarrow> []
                      | Some c \<Rightarrow> filter (\<lambda>cu. customer_id cu = c) (coll_customers d))
      in \<lparr>tv_transaction = t,
          tv_user = map_option user_summary (arrayElemAt0 user),
          tv_customer = arrayElemAt0 customer\<rparr>)"

text \<open>
  \<open>getTransactions\<close>: \<open>$match\<close> on the tenant, \<open>$sort\<close> by \<open>createdAt\<close> descending (documents
  with equal \<open>createdAt\<close> keep the collection's order here), \<open>$limit\<close> when \<open>limit\<close> is
  truthy, the two \<open>$lookup\<close>s and the \<open>$project\<close>.
\<close>

definition getTransactions :: "int \<Rightarrow> nat option \<Rightarrow> db \<Rightarrow> TransactionView list" where
  "getTransactions businessId limit d =
     (let matched = filter (\<lambda>t. tx_businessId t = businessId) (coll_transactions d);
          sorted = sort_key (\<lambda>t. - tx_createdAt t) matched;
          limited = (case limit of
                       None \<Rightarrow> sorted
                     | Some n \<Rightarrow> if n = 0 then sorted else take n sorted)
      in map (project_transaction d) limited)"

fun insertItems :: "int \<Rightarrow> MongoTransactionItem list \<Rightarrow> db \<Rightarrow> db" where
  "insertItems i [] d = d"
| "insertItems i (item # items) d =
     (case getNextId ''transactionItems'' d of (itemId, d1) \<Rightarrow>
        insertItems i items
          (d1\<lparr>coll_transactionItems :=
                insertOne (item\<lparr>item_id := itemId, item_transactionId := i\<rparr>)
                  (coll_transactionItems d1)\<rparr>))"

definition createTransaction ::
  "int \<Rightarrow> MongoTransaction \<Rightarrow> MongoTransactionItem list \<Rightarrow> db \<Rightarrow> MongoTransaction \<times> db" where
  "createTransaction now transaction items d =
     (case getNextId ''transactions'' d of (i, d1) \<Rightarrow>
        let newTransaction = transaction\<lparr>tx_id := i, tx_createdAt := now\<rparr>;
            d2 = d1\<lparr>coll_transactions := insertOne newTransaction (coll_transactions d1)\<rparr>
        in (newTransaction, insertItems i items d2))"

section \<open>Top products\<close>

text \<open>
  What the aggregation engine decides is a parameter. \<open>eng_toDouble\<close> is \<open>$toDouble\<close> on a
  string (\<open>None\<close>: the conversion fails and the aggregation throws), \<open>eng_sum\<close> is \<open>$sum\<close>
  over the doubles of a group in pipeline order, \<open>eng_toString\<close> is \<open>$toString\<close>, for a
  type \<open>'r\<close> of doubles that is left open. \<open>eng_emit\<close> is the order in which the groups
  reach the \<open>$sort\<close> stage: \<open>$group\<close> promises no order of its output, and the pipeline
  sorts by \<open>soldCount\<close> alone.
\<close>

record 'r TopGroup =
  grp_key :: int
  grp_product :: MongoProduct
  grp_soldCount :: int
  grp_revenue :: 'r

record 'r engine =
  eng_toDouble :: "string \<Rightarrow> 'r option"
  eng_sum :: "'r list \<Rightarrow> 'r"
  eng_toString :: "'r \<Rightarrow> string"
  eng_emit :: "'r TopGroup list \<Rightarrow> 'r TopGroup list"

record TopProduct =
  top_key :: int
  top_product :: MongoProduct
  top_soldCount :: int
  top_revenue :: string

text \<open>
  First \<open>$lookup\<close> and \<open>$match\<close>: the items whose joined \<open>transaction\<close> array has an element
  of the tenant and an element with status \<open>completed\<close>.
\<close>

definition tp_matched :: "int \<Rightarrow> db \<Rightarrow> MongoTransactionItem list" where
  "tp_matched businessId d =
     filter (\<lambda>i. let transaction = filter (\<lambda>t. tx_id t = item_transactionId i)
                                      (coll_transactions d)
                 in list_ex (\<lambda>t. tx_businessId t = businessId) transaction \<and>
                    list_ex (\<lambda>t. tx_status t = ''completed'') transaction)
       (coll_transactionItems d)"

text \<open>Second \<open>$lookup\<close> and \<open>$unwind\<close>: one document per item and joined product.\<close>

definition tp_unwound :: "int \<Rightarrow> db \<Rightarrow> (MongoTransactionItem \<times> MongoProduct) list" where
  "tp_unwound businessId d =
     concat (map (\<lambda>i. map (\<lambda>p. (i, p))
                         (filter (\<lambda>p. product_id p = item_productId i) (coll_products d)))
               (tp_matched businessId d))"

text \<open>The \<open>$toDouble\<close> of every document that reaches \<open>$group\<close>; one failure fails them all.\<close>

definition tp_converted ::
  "'r engine \<Rightarrow> (MongoTransactionItem \<times> MongoProduct) list \<Rightarrow>
     (MongoTransactionItem \<times> MongoProduct \<times> 'r) list option" where
  "tp_converted eng docs =
     those (map (\<lambda>(i, p). map_option (\<lambda>r. (i, p, r)) (eng_toDouble eng (item_total i))) docs)"

text \<open>
  \<open>$group\<close> by \<open>$productId\<close>: the first product of the group, the sum of the quantities
  and the sum of the converted totals.
\<close>

fun tp_groups ::
  "'r engine \<Rightarrow> (MongoTransactionItem \<times> MongoProduct \<times> 'r) list \<Rightarrow> 'r TopGroup list" where
  "tp_groups eng [] = []"
| "tp_groups eng ((i, p, r) # ds) =
     (let same = (\<lambda>(j, q, s). item_productId j = item_productId i);
          members = (i, p, r) # filter same ds
      in \<lparr>grp_key = item_productId i, grp_product = p,
          grp_soldCount = sum_list (map (\<lambda>(j, q, s). item_quantity j) members),
          grp_revenue = eng_sum eng (map (\<lambda>(j, q, s). s) members)\<rparr>
         # tp_groups eng (filter (\<lambda>x. \<not> same x) ds))"

text \<open>The key under which \<open>$group\<close> files a document: its \<open>productId\<close>.\<close>

definition doc_key :: "MongoTransactionItem \<times> 'b \<Rightarrow> int" where
  "doc_key x = item_productId (fst x)"

definition project_top :: "'r engine \<Rightarrow> 'r TopGroup \<Rightarrow> TopProduct" where
  "project_top eng g = \<lparr>top_key = grp_key g, top_product = grp_product g,
     top_soldCount = grp_soldCount g, top_revenue = eng_toString eng (grp_revenue g)\<rparr>"

text \<open>
  \<open>getTopProducts\<close>: \<open>$sort: { soldCount: -1 }\<close> is a sort by that key alone, \<open>$limit\<close>
  refuses a limit that is not positive.
\<close>

definition getTopProducts :: "'r engine \<Rightarrow> int \<Rightarrow> nat \<Rightarrow> db \<Rightarrow> error + TopProduct list" where
  "getTopProducts eng businessId limit d =
     (if limit = 0 then Inl (Error ''the limit must be positive'')
      else case tp_converted eng (tp_unwound businessId d) of
        None \<Rightarrow> Inl (Error ''Failed to parse number in $convert'')
      | Some docs \<Rightarrow>
          Inr (map (project_top eng)
                 (take limit
                    (sort_key (\<lambda>g. - grp_soldCount g) (eng_emit eng (tp_groups eng docs))))))"

section \<open>The gates and the employee routes\<close>

record SessionUser =
  su_id :: int
  su_businessId :: int
  su_username :: string
  su_firstName :: string
  su_lastName :: string
  su_role :: string
  su_permissions :: "Permissions option"

datatype capability =
  Cap_pos | Cap_inventory | Cap_customers | Cap_reports | Cap_employees | Cap_settings

fun permission_flag :: "capability \<Rightarrow> Permissions \<Rightarrow> bool" where
  "permission_flag Cap_pos p = perm_pos p"
| "permission_flag Cap_inventory p = perm_inventory p"
| "permission_flag Cap_customers p = perm_customers p"
| "permission_flag Cap_reports p = perm_reports p"
| "permission_flag Cap_employees p = perm_employees p"
| "permission_flag Cap_settings p = perm_settings p"

text \<open>
  A middleware either calls \<open>next()\<close> or answers \<open>res.status(code).json({ message })\<close>.
  The session carries a user or none.
\<close>

datatype gate = Next | Reject nat string

definition requireAuth :: "SessionUser option \<Rightarrow> gate" where
  "requireAuth session = (case session of None \<Rightarrow> Reject 401 ''Unauthorized'' | Some _ \<Rightarrow> Next)"

definition requirePermission :: "capability \<Rightarrow> SessionUser option \<Rightarrow> gate" where
  "requirePermission permission session =
     (case session of
        None \<Rightarrow> Reject 401 ''Unauthorized''
      | Some user \<Rightarrow>
          if su_role user = ''admin'' \<or>
             (case su_permissions user of None \<Rightarrow> False | Some p \<Rightarrow> permission_flag permission p)
          then Next
          else Reject 403 ''Access denied'')"

definition requireAdmin :: "SessionUser option \<Rightarrow> gate" where
  "requireAdmin session =
     (case session of
        None \<Rightarrow> Reject 401 ''Unauthorized''
      | Some user \<Rightarrow>
          if su_role user \<noteq> ''admin'' then Reject 403 ''Admin access required'' else Next)"

datatype 'a response = Json 'a | Status nat string

text \<open>
  \<open>POST /api/employees\<close>. The route imports \<open>insertUserSchema\<close> by path, and
  \<open>parse body businessId role isActive\<close> stands for
  \<open>insertUserSchema.parse({ ...req.body, businessId, role, isActive })\<close>: the payload, or
  the message of the error it throws. It is a parameter, so what is proved of the route
  holds for every schema. A handler that runs without a session user throws on
  \<open>req.session.user!.businessId\<close> and answers 400 from its \<open>catch\<close>.
\<close>

definition post_employees ::
  "('body \<Rightarrow> int \<Rightarrow> string \<Rightarrow> bool \<Rightarrow> string + InsertUser) \<Rightarrow> bcrypt \<Rightarrow> string \<Rightarrow> int \<Rightarrow>
     SessionUser option \<Rightarrow> 'body \<Rightarrow> db \<Rightarrow> MongoUser response \<times> db" where
  "post_employees parse bc salt now session body d =
     (case requireAdmin session of
        Reject code message \<Rightarrow> (Status code message, d)
      | Next \<Rightarrow>
          (case session of
             None \<Rightarrow> (Status 400 ''Cannot read properties of undefined'', d)
           | Some su \<Rightarrow>
               let count = getEmployeeCount (su_businessId su) d in
               if count \<ge> 10 then (Status 400 ''Maximum of 10 employees allowed'', d)
               else (case parse body (su_businessId su) ''employee'' True of
                       Inl message \<Rightarrow> (Status 400 message, d)
                     | Inr userData \<Rightarrow>
                         (case createUser bc salt now userData d of
                            (employee, d') \<Rightarrow> (Json employee, d')))))"

definition delete_employee ::
  "SessionUser option \<Rightarrow> int \<Rightarrow> db \<Rightarrow> string response \<times> db" where
  "delete_employee session employeeId d =
     (case requireAdmin session of
        Reject code message \<Rightarrow> (Status code message, d)
      | Next \<Rightarrow>
          (case session of
             None \<Rightarrow> (Status 400 ''Cannot read properties of undefined'', d)
           | Some su \<Rightarrow>
               (case deleteEmployee employeeId (su_businessId su) d of
                  (deleted, d') \<Rightarrow>
                    if \<not> deleted then (Status 404 ''Employee not found'', d')
                    else (Json ''Employee deleted successfully'', d'))))"


section \<open>Sequences of storage calls\<close>

text \<open>
  The calls of the storage class that write to the store, with their arguments (the salt
  bcrypt draws and the clock's reading where the call uses one).
\<close>

datatype call =
    Call_getNextId string
  | Call_createUser string int InsertUser
  | Call_createBusiness int MongoBusiness
  | Call_createCategory int MongoCategory
  | Call_createProduct int MongoProduct
  | Call_createCustomer int MongoCustomer
  | Call_createTransaction int MongoTransaction "MongoTransactionItem list"
  | Call_login string string string
  | Call_updateUserPermissions int int Permissions
  | Call_toggleEmployeeStatus int int
  | Call_deleteEmployee int int

text \<open>
  \<open>step\<close> runs one call and reports the ids the call handed out, each with its namespace:
  the value \<open>getNextId\<close> returned, the \<open>id\<close> of the entity a \<open>create\<close> returned, and for
  \<open>createTransaction\<close> also the ids of the items it appended.
\<close>

fun step :: "bcrypt \<Rightarrow> call \<Rightarrow> db \<Rightarrow> (string \<times> int) list \<times> db" where
  "step bc (Call_getNextId c) d =
     (case getNextId c d of (i, d') \<Rightarrow> ([(c, i)], d'))"
| "step bc (Call_createUser salt now user) d =
     (case createUser bc salt now user d of (u, d') \<Rightarrow> ([(''users'', user_id u)], d'))"
| "step bc (Call_createBusiness now business) d =
     (case createBusiness now business d of (b, d') \<Rightarrow> ([(''businesses'', business_id b)], d'))"
| "step bc (Call_createCategory now category) d =
     (case createCategory now category d of (c, d') \<Rightarrow> ([(''categories'', category_id c)], d'))"
| "step bc (Call_createProduct now product) d =
     (case createProduct now product d of (p, d') \<Rightarrow> ([(''products'', product_id p)], d'))"
| "step bc (Call_createCustomer now customer) d =
     (case createCustomer now customer d of (c, d') \<Rightarrow> ([(''customers'', customer_id c)], d'))"
| "step bc (Call_createTransaction now transaction items) d =
     (case createTransaction now transaction items d of (t, d') \<Rightarrow>
        ((''transactions'', tx_id t)
           # map (\<lambda>i. (''transactionItems'', item_id i))
               (drop (length (coll_transactionItems d)) (coll_transactionItems d')),
         d'))"
| "step bc (Call_login salt username password) d =
     ([], snd (getUserByUsernameAndPassword bc salt username password d))"
| "step bc (Call_updateUserPermissions i businessId permissions) d =
     ([], snd (updateUserPermissions i businessId permissions d))"
| "step bc (Call_toggleEmployeeStatus i businessId) d =
     ([], snd (toggleEmployeeStatus i businessId d))"
| "step bc (Call_deleteEmployee i businessId) d =
     ([], snd (deleteEmployee i businessId d))"

fun run :: "bcrypt \<Rightarrow> call list \<Rightarrow> db \<Rightarrow> (string \<times> int) list \<times> db" where
  "run bc [] d = ([], d)"
| "run bc (c # cs) d =
     (case step bc c d of (ids, d1) \<Rightarrow>
        (case run bc cs d1 of (ids', d2) \<Rightarrow> (ids @ ids', d2)))"

text \<open>The ids handed out in one namespace, in the order of the calls.\<close>

definition ids_for :: "string \<Rightarrow> (string \<times> int) list \<Rightarrow> int list" where
  "ids_for c ids = map snd (filter (\<lambda>p. fst p = c) ids)"

text \<open>The sequence number a namespace holds; 0 for a namespace without a counter.\<close>

definition seq_of :: "db \<Rightarrow> string \<Rightarrow> int" where
  "seq_of d c = (case map_of (coll_counters d) c of None \<Rightarrow> 0 | Some s \<Rightarrow> s)"


text \<open>A run of \<open>deleteEmployee\<close> calls, each with its \<open>id\<close> and \<open>businessId\<close>.\<close>

fun deleteEmployees :: "(int \<times> int) list \<Rightarrow> db \<Rightarrow> db" where
  "deleteEmployees [] d = d"
| "deleteEmployees ((i, businessId) # cs) d =
     deleteEmployees cs (snd (deleteEmployee i businessId d))"

definition admins :: "db \<Rightarrow> MongoUser list" where
  "admins d = filter (\<lambda>u. user_role u = ''admin'') (coll_users d)"

section \<open>Values for the examples\<close>

text \<open>
  A stand-in for the bcrypt library in the examples: the hash is the salt and the data
  behind a marker, and \<open>compare\<close> accepts exactly the strings of that form.
\<close>

definition example_bcrypt :: bcrypt where
  "example_bcrypt =
     \<lparr>bcrypt_hash = (\<lambda>data saltRounds salt. ''$2b$'' @ salt @ ''$'' @ data),
      bcrypt_compare = (\<lambda>data encrypted.
         take 4 encrypted = ''$2b$'' \<and>
         dropWhile (\<lambda>c. c \<noteq> CHR ''$'') (drop 4 encrypted) = ''$'' @ data)\<rparr>"

definition mk_user :: "int \<Rightarrow> int \<Rightarrow> string \<Rightarrow> string \<Rightarrow> string \<Rightarrow> MongoUser" where
  "mk_user i businessId username password role =
     \<lparr>user_id = i, user_businessId = businessId, user_username = username,
      user_email = username @ ''@example.com'', user_password = Some password,
      user_firstName = ''A'', user_lastName = ''B'', user_role = role, user_isActive = True,
      user_permissions = employee_permissions, user_createdAt = 0\<rparr>"

definition mk_insert_user :: "int \<Rightarrow> string \<Rightarrow> string \<Rightarrow> string \<Rightarrow> InsertUser" where
  "mk_insert_user businessId username password role =
     \<lparr>iu_businessId = businessId, iu_username = username,
      iu_email = username @ ''@example.com'', iu_password = password,
      iu_firstName = ''A'', iu_lastName = ''B'', iu_role = role, iu_isActive = True,
      iu_permissions = None\<rparr>"

definition mk_product :: "int \<Rightarrow> int \<Rightarrow> int \<Rightarrow> int \<Rightarrow> MongoProduct" where
  "mk_product i businessId stock threshold =
     \<lparr>product_id = i, product_businessId = businessId, product_categoryId = None,
      product_name = ''P'', product_description = None, product_sku = None,
      product_barcode = None, product_price = ''10'', product_cost = ''5'',
      product_stock = stock, product_lowStockThreshold = threshold,
      product_isActive = True, product_createdAt = 0\<rparr>"

definition mk_transaction :: "int \<Rightarrow> int \<Rightarrow> string \<Rightarrow> MongoTransaction" where
  "mk_transaction i businessId status =
     \<lparr>tx_id = i, tx_businessId = businessId, tx_customerId = None, tx_userId = 1,
      tx_transactionNumber = ''TXN-1'', tx_subtotal = ''10'', tx_taxAmount = ''0'',
      tx_total = ''10'', tx_paymentMethod = ''cash'', tx_status = status, tx_createdAt = 0\<rparr>"

definition mk_item :: "int \<Rightarrow> int \<Rightarrow> int \<Rightarrow> int \<Rightarrow> string \<Rightarrow> MongoTransactionItem" where
  "mk_item i transactionId productId quantity itemTotal =
     \<lparr>item_id = i, item_transactionId = transactionId, item_productId = productId,
      item_quantity = quantity, item_unitPrice = ''10'', item_total = itemTotal\<rparr>"

definition mk_session :: "int \<Rightarrow> string \<Rightarrow> Permissions option \<Rightarrow> SessionUser" where
  "mk_session businessId role permissions =
     \<lparr>su_id = 1, su_businessId = businessId, su_username = ''u'', su_firstName = ''A'',
      su_lastName = ''B'', su_role = role, su_permissions = permissions\<rparr>"


text \<open>Two employees are created, the first is deleted in between, then an id is drawn.\<close>

definition example_calls :: "call list" where
  "example_calls =
     [Call_createUser ''s1'' 0 (mk_insert_user 1 ''ann'' ''pw'' ''employee''),
      Call_deleteEmployee 1 1,
      Call_createUser ''s2'' 0 (mk_insert_user 1 ''bob'' ''pw'' ''employee''),
      Call_getNextId ''users'']"

text \<open>A store with one active user whose password field still holds the plaintext.\<close>

definition legacy_db :: db where
  "legacy_db = empty_db\<lparr>coll_users := [mk_user 1 1 ''ann'' ''secret'' ''employee'']\<rparr>"

text \<open>A store with an administrator and an employee of business 1.\<close>

definition staff_db :: db where
  "staff_db = empty_db\<lparr>coll_users :=
     [mk_user 1 1 ''root'' ''$2b$s0$x'' ''admin'', mk_user 2 1 ''ann'' ''$2b$s1$y'' ''employee'']\<rparr>"

text \<open>A store in which business 1 has ten employees.\<close>

definition full_db :: db where
  "full_db = empty_db\<lparr>coll_users :=
     map (\<lambda>i. mk_user i 1 ''emp'' ''$2b$s$pw'' ''employee'') [1, 2, 3, 4, 5, 6, 7, 8, 9, 10]\<rparr>"

text \<open>A stand-in for the schema: the body is the user name, everything else is fixed.\<close>

definition example_parse :: "string \<Rightarrow> int \<Rightarrow> string \<Rightarrow> bool \<Rightarrow> string + InsertUser" where
  "example_parse body businessId role isActive =
     (if body = [] then Inl ''Required''
      else Inr ((mk_insert_user businessId body ''pw'' role)\<lparr>iu_isActive := isActive\<rparr>))"

text \<open>
  A stand-in for the aggregation engine in the examples: numbers are naturals written in
  decimal digits, \<open>$toDouble\<close> fails on any other string, and the groups reach the sort
  in the order in which their first document arrives.
\<close>

definition digit_of :: "char \<Rightarrow> nat option" where
  "digit_of c = map_of (zip ''0123456789'' [0, 1, 2, 3, 4, 5, 6, 7, 8, 9]) c"

fun parse_digits :: "nat \<Rightarrow> string \<Rightarrow> nat option" where
  "parse_digits acc [] = Some acc"
| "parse_digits acc (c # cs) =
     (case digit_of c of None \<Rightarrow> None | Some v \<Rightarrow> parse_digits (10 * acc + v) cs)"

fun print_digits :: "nat \<Rightarrow> string" where
  "print_digits n =
     (if n < 10 then [''0123456789'' ! n]
      else print_digits (n div 10) @ [''0123456789'' ! (n mod 10)])"

definition example_engine :: "nat engine" where
  "example_engine =
     \<lparr>eng_toDouble = (\<lambda>s. if s = [] then None else parse_digits 0 s),
      eng_sum = sum_list,
      eng_toString = print_digits,
      eng_emit = (\<lambda>gs. gs)\<rparr>"

text \<open>
  Business 2 creates a product; a user of business 1 then posts a sale whose item names
  that product's id.
\<close>

definition leak_calls :: "call list" where
  "leak_calls =
     [Call_createProduct 0 (mk_product 0 2 3 5),
      Call_createTransaction 0 (mk_transaction 0 1 ''completed'') [mk_item 0 0 1 2 ''20'']]"

definition leak_db :: db where
  "leak_db = snd (run example_bcrypt leak_calls empty_db)"

text \<open>
  Business 1 creates two products and sells three of each in one sale, the second
  product first.
\<close>

definition tie_calls :: "call list" where
  "tie_calls =
     [Call_createProduct 0 (mk_product 0 1 3 5),
      Call_createProduct 0 (mk_product 0 1 3 5),
      Call_createTransaction 0 (mk_transaction 0 1 ''completed'')
        [mk_item 0 0 2 3 ''30'', mk_item 0 0 1 3 ''30'']]"

definition tie_db :: db where
  "tie_db = snd (run example_bcrypt tie_calls empty_db)"

definition tie_result :: "TopProduct list" where
  "tie_result =
     [\<lparr>top_key = 2, top_product = mk_product 2 1 3 5, top_soldCount = 3, top_revenue = ''30''\<rparr>,
      \<lparr>top_key = 1, top_product = mk_product 1 1 3 5, top_soldCount = 3, top_revenue = ''30''\<rparr>]"

text \<open>
  The tie-break in the words of the specification: of two entries with equal
  \<open>soldCount\<close>, the one with the smaller product id comes first.
\<close>

definition ties_by_product_id :: "TopProduct list \<Rightarrow> bool" where
  "ties_by_product_id r =
     sorted_wrt (\<lambda>a b. top_soldCount a = top_soldCount b \<longrightarrow>
                        product_id (top_product a) < product_id (top_product b)) r"

text \<open>
  Business 2 creates a customer; a user of business 1 then posts a sale whose
  \<open>customerId\<close> is that customer's id.
\<close>

definition mk_customer :: "int \<Rightarrow> int \<Rightarrow> MongoCustomer" where
  "mk_customer i businessId =
     \<lparr>customer_id = i, customer_businessId = businessId, customer_firstName = ''C'',
      customer_lastName = ''D'', customer_email = None, customer_phone = Some ''555'',
      customer_address = None, customer_loyaltyPoints = 0, customer_totalSpent = ''0'',
      customer_createdAt = 0\<rparr>"

definition customer_leak_calls :: "call list" where
  "customer_leak_calls =
     [Call_createCustomer 0 (mk_customer 0 2),
      Call_createTransaction 0 ((mk_transaction 0 1 ''completed'')\<lparr>tx_customerId := Some 1\<rparr>) []]"

definition customer_leak_db :: db where
  "customer_leak_db = snd (run example_bcrypt customer_leak_calls empty_db)"

text \<open>
  Two tenants each have an active user named \<open>ann\<close>; the second one's password field
  still holds the plaintext.
\<close>

definition shadow_db :: db where
  "shadow_db = empty_db\<lparr>coll_users :=
     [mk_user 1 1 ''ann'' ''$2b$s0$other'' ''employee'',
      mk_user 2 2 ''ann'' ''secret'' ''employee'']\<rparr>"

text \<open>A store in which a legacy user shares its id with an earlier user.\<close>

definition dup_db :: db where
  "dup_db = empty_db\<lparr>coll_users :=
     [mk_user 1 1 ''bob'' ''$2b$s0$x'' ''employee'',
      mk_user 1 1 ''ann'' ''secret'' ''employee'']\<rparr>"

text \<open>
  A store in which business 1 has three products and one completed sale: one unit of
  the first product, two and then three of the second, and three of the third.
\<close>

definition rank_db :: db where
  "rank_db = empty_db
     \<lparr>coll_counters := [(''products'', 3), (''transactions'', 1), (''transactionItems'', 4)],
      coll_products := [mk_product 1 1 3 5, mk_product 2 1 3 5, mk_product 3 1 3 5],
      coll_transactions := [mk_transaction 1 1 ''completed''],
      coll_transactionItems :=
        [mk_item 1 1 1 1 ''10'', mk_item 2 1 2 2 ''20'', mk_item 3 1 3 3 ''30'',
         mk_item 4 1 2 3 ''30'']\<rparr>"

definition rank_result :: "TopProduct list" where
  "rank_result =
     [\<lparr>top_key = 2, top_product = mk_product 2 1 3 5, top_soldCount = 5, top_revenue = ''50''\<rparr>,
      \<lparr>top_key = 3, top_product = mk_product 3 1 3 5, top_soldCount = 3, top_revenue = ''30''\<rparr>]"

section \<open>Proofs: the id allocator\<close>

lemma map_of_inc_seq:
  "map_of (inc_seq c cs) k =
     (if k = c then Some (case map_of cs c of None \<Rightarrow> 1 | Some s \<Rightarrow> s + 1) else map_of cs k)"
  by (induction c cs rule: inc_seq.induct) auto

lemma seq_of_getNextId:
  "seq_of (snd (getNextId c d)) k = (if k = c then seq_of d c + 1 else seq_of d k)"
  by (simp add: seq_of_def getNextId_def Let_def map_of_inc_seq split: option.splits)

lemma fst_getNextId: "0 \<le> seq_of d c \<Longrightarrow> fst (getNextId c d) = seq_of d c + 1"
  by (auto simp add: seq_of_def getNextId_def Let_def map_of_inc_seq split: option.splits)

lemma getNextId_colls:
  "coll_users (snd (getNextId c d)) = coll_users d"
  "coll_transactionItems (snd (getNextId c d)) = coll_transactionItems d"
  "coll_transactions (snd (getNextId c d)) = coll_transactions d"
  "coll_products (snd (getNextId c d)) = coll_products d"
  by (simp_all add: getNextId_def Let_def)

lemma ids_for_simps:
  "ids_for c [] = []"
  "ids_for c ((k, i) # ids) = (if k = c then i # ids_for c ids else ids_for c ids)"
  "ids_for c (xs @ ys) = ids_for c xs @ ids_for c ys"
  by (simp_all add: ids_for_def)

lemma upto_append: "i \<le> j + 1 \<Longrightarrow> j \<le> k \<Longrightarrow> [i..j] @ [j + 1..k] = [i..k]"
proof (cases "i \<le> j")
  case True
  assume "j \<le> k"
  with True show ?thesis by (simp add: upto_split2 [of i j k])
next
  case False
  assume "i \<le> j + 1"
  with False have "i = j + 1" by simp
  then show ?thesis by simp
qed

lemma getNextId_eq:
  assumes "getNextId c d = (i, d1)"
  shows "seq_of d1 k = (if k = c then seq_of d c + 1 else seq_of d k)"
    and "0 \<le> seq_of d c \<Longrightarrow> i = seq_of d c + 1"
    and "coll_users d1 = coll_users d"
    and "coll_transactionItems d1 = coll_transactionItems d"
  using assms seq_of_getNextId [of c d k] fst_getNextId [of d c] getNextId_colls [of c d]
  by auto

lemma seq_of_upd [simp]:
  "seq_of (d\<lparr>coll_users := us\<rparr>) k = seq_of d k"
  "seq_of (d\<lparr>coll_businesses := bs\<rparr>) k = seq_of d k"
  "seq_of (d\<lparr>coll_categories := cs\<rparr>) k = seq_of d k"
  "seq_of (d\<lparr>coll_products := ps\<rparr>) k = seq_of d k"
  "seq_of (d\<lparr>coll_customers := cus\<rparr>) k = seq_of d k"
  "seq_of (d\<lparr>coll_transactions := ts\<rparr>) k = seq_of d k"
  "seq_of (d\<lparr>coll_transactionItems := is\<rparr>) k = seq_of d k"
  by (simp_all add: seq_of_def)

text \<open>The loop of \<open>createTransaction\<close> draws one item id per item, in order.\<close>

lemma insertItems_seq:
  "seq_of (insertItems i items d) k =
     (if k = ''transactionItems'' then seq_of d k + int (length items) else seq_of d k)"
proof (induction items arbitrary: d)
  case Nil
  show ?case by simp
next
  case (Cons item items)
  obtain j d1 where g: "getNextId ''transactionItems'' d = (j, d1)"
    by (cases "getNextId ''transactionItems'' d")
  show ?case
    using g Cons.IH getNextId_eq(1) [OF g, of k] by auto
qed

lemma insertItems_ids:
  assumes "0 \<le> seq_of d ''transactionItems''"
  shows "\<exists>xs. coll_transactionItems (insertItems i items d) = coll_transactionItems d @ xs \<and>
           map item_id xs =
             [seq_of d ''transactionItems'' + 1 ..
              seq_of d ''transactionItems'' + int (length items)]"
  using assms
proof (induction items arbitrary: d)
  case Nil
  show ?case by simp
next
  case (Cons item items)
  let ?c = "''transactionItems''"
  obtain j d1 where g: "getNextId ?c d = (j, d1)"
    by (cases "getNextId ?c d")
  let ?x = "item\<lparr>item_id := j, item_transactionId := i\<rparr>"
  let ?d2 = "d1\<lparr>coll_transactionItems := insertOne ?x (coll_transactionItems d1)\<rparr>"
  have j: "j = seq_of d ?c + 1"
    using getNextId_eq(2) [OF g] Cons.prems by simp
  have s2: "seq_of ?d2 ?c = seq_of d ?c + 1"
    using getNextId_eq(1) [OF g, of ?c] by simp
  then have "0 \<le> seq_of ?d2 ?c" using Cons.prems by simp
  from Cons.IH [OF this] obtain xs where
    xs: "coll_transactionItems (insertItems i items ?d2) = coll_transactionItems ?d2 @ xs"
        "map item_id xs = [seq_of ?d2 ?c + 1 .. seq_of ?d2 ?c + int (length items)]"
    by blast
  have "coll_transactionItems (insertItems i (item # items) d) =
          coll_transactionItems d @ (?x # xs)"
    using g xs(1) getNextId_eq(4) [OF g] by (simp add: insertOne_def)
  moreover have "map item_id (?x # xs) =
      [seq_of d ?c + 1 .. seq_of d ?c + int (length (item # items))]"
    using xs(2) s2 j
    by (simp add: upto_rec1 [of "seq_of d ?c + 1"] add.assoc)
  ultimately show ?case by blast
qed

text \<open>The calls that write users only leave every counter as it is.\<close>

lemma seq_of_login [simp]:
  "seq_of (snd (getUserByUsernameAndPassword bc salt username password d)) k = seq_of d k"
  by (simp add: getUserByUsernameAndPassword_def Let_def split: option.splits)

lemma seq_of_updateUserPermissions [simp]:
  "seq_of (snd (updateUserPermissions i b p d)) k = seq_of d k"
  by (simp add: updateUserPermissions_def Let_def split: option.splits)

lemma seq_of_toggleEmployeeStatus [simp]:
  "seq_of (snd (toggleEmployeeStatus i b d)) k = seq_of d k"
  by (simp add: toggleEmployeeStatus_def Let_def split: option.splits)

lemma seq_of_deleteEmployee [simp]:
  "seq_of (snd (deleteEmployee i b d)) k = seq_of d k"
  by (simp add: deleteEmployee_def split: prod.splits)

text \<open>
  One call: the ids it hands out in a namespace are the numbers from the counter's old
  value (exclusive) to its new value (inclusive).
\<close>

lemma step_ids:
  assumes "0 \<le> seq_of d c" and "step bc e d = (ids, d')"
  shows "ids_for c ids = [seq_of d c + 1 .. seq_of d' c] \<and> seq_of d c \<le> seq_of d' c"
proof (cases e)
  case (Call_getNextId n)
  obtain i d1 where g: "getNextId n d = (i, d1)" by (cases "getNextId n d")
  show ?thesis
    using assms Call_getNextId g getNextId_eq(1) [OF g, of c] getNextId_eq(2) [OF g]
    by (auto simp: ids_for_simps)
next
  case (Call_createUser salt now user)
  obtain i d1 where g: "getNextId ''users'' d = (i, d1)" by (cases "getNextId ''users'' d")
  show ?thesis
    using assms Call_createUser g getNextId_eq(1) [OF g, of c] getNextId_eq(2) [OF g]
    by (auto simp: ids_for_simps createUser_def Let_def)
next
  case (Call_createBusiness now b)
  obtain i d1 where g: "getNextId ''businesses'' d = (i, d1)"
    by (cases "getNextId ''businesses'' d")
  show ?thesis
    using assms Call_createBusiness g getNextId_eq(1) [OF g, of c] getNextId_eq(2) [OF g]
    by (auto simp: ids_for_simps createBusiness_def Let_def)
next
  case (Call_createCategory now b)
  obtain i d1 where g: "getNextId ''categories'' d = (i, d1)"
    by (cases "getNextId ''categories'' d")
  show ?thesis
    using assms Call_createCategory g getNextId_eq(1) [OF g, of c] getNextId_eq(2) [OF g]
    by (auto simp: ids_for_simps createCategory_def Let_def)
next
  case (Call_createProduct now b)
  obtain i d1 where g: "getNextId ''products'' d = (i, d1)"
    by (cases "getNextId ''products'' d")
  show ?thesis
    using assms Call_createProduct g getNextId_eq(1) [OF g, of c] getNextId_eq(2) [OF g]
    by (auto simp: ids_for_simps createProduct_def Let_def)
next
  case (Call_createCustomer now b)
  obtain i d1 where g: "getNextId ''customers'' d = (i, d1)"
    by (cases "getNextId ''customers'' d")
  show ?thesis
    using assms Call_createCustomer g getNextId_eq(1) [OF g, of c] getNextId_eq(2) [OF g]
    by (auto simp: ids_for_simps createCustomer_def Let_def)
next
  case (Call_createTransaction now t items)
  let ?ti = "''transactionItems''"
  obtain i d1 where g: "getNextId ''transactions'' d = (i, d1)"
    by (cases "getNextId ''transactions'' d")
  let ?t = "t\<lparr>tx_id := i, tx_createdAt := now\<rparr>"
  let ?d2 = "d1\<lparr>coll_transactions := insertOne ?t (coll_transactions d1)\<rparr>"
  have d': "d' = insertItems i items ?d2"
    and ids: "ids = (''transactions'', i)
        # map (\<lambda>x. (?ti, item_id x))
            (drop (length (coll_transactionItems d)) (coll_transactionItems d'))"
    using assms(2) Call_createTransaction g by (auto simp: createTransaction_def Let_def)
  have seq2: "seq_of ?d2 k = (if k = ''transactions'' then seq_of d k + 1 else seq_of d k)" for k
    using getNextId_eq(1) [OF g, of k] by auto
  have seq': "seq_of d' k =
      (if k = ?ti then seq_of d k + int (length items)
       else if k = ''transactions'' then seq_of d k + 1 else seq_of d k)" for k
    unfolding d' insertItems_seq seq2 by simp
  have items2: "coll_transactionItems ?d2 = coll_transactionItems d"
    using getNextId_eq(4) [OF g] by simp
  show ?thesis
  proof (cases "c = ?ti")
    case True
    have "0 \<le> seq_of ?d2 ?ti" using assms(1) True seq2 [of ?ti] by simp
    from insertItems_ids [OF this, of i items] obtain xs where
      xs: "coll_transactionItems d' = coll_transactionItems d @ xs"
          "map item_id xs = [seq_of d ?ti + 1 .. seq_of d ?ti + int (length items)]"
      unfolding d' items2 seq2 by auto
    have "ids_for c ids = map item_id xs"
      unfolding ids xs(1) using True by (simp add: ids_for_def comp_def)
    then show ?thesis using xs(2) seq' [of ?ti] True by simp
  next
    case False
    have "ids_for c ids = (if c = ''transactions'' then [i] else [])"
      unfolding ids using False by (simp add: ids_for_def comp_def)
    then show ?thesis
      using False seq' [of c] getNextId_eq(2) [OF g] assms(1) by auto
  qed
next
  case (Call_login salt username password)
  then show ?thesis using assms by (auto simp: ids_for_simps)
next
  case (Call_updateUserPermissions i b p)
  then show ?thesis using assms by (auto simp: ids_for_simps)
next
  case (Call_toggleEmployeeStatus i b)
  then show ?thesis using assms by (auto simp: ids_for_simps)
next
  case (Call_deleteEmployee i b)
  then show ?thesis using assms by (auto simp: ids_for_simps)
qed

lemma run_ids:
  "0 \<le> seq_of d c \<Longrightarrow>
     ids_for c (fst (run bc es d)) = [seq_of d c + 1 .. seq_of (snd (run bc es d)) c] \<and>
     seq_of d c \<le> seq_of (snd (run bc es d)) c"
proof (induction es arbitrary: d)
  case Nil
  then show ?case by (simp add: ids_for_simps)
next
  case (Cons e es)
  obtain ids d1 where s: "step bc e d = (ids, d1)" by (cases "step bc e d")
  obtain ids' d2 where r: "run bc es d1 = (ids', d2)" by (cases "run bc es d1")
  from step_ids [OF Cons.prems s]
  have 1: "ids_for c ids = [seq_of d c + 1 .. seq_of d1 c]" "seq_of d c \<le> seq_of d1 c"
    by simp_all
  then have "0 \<le> seq_of d1 c" using Cons.prems by simp
  from Cons.IH [OF this] r
  have 2: "ids_for c ids' = [seq_of d1 c + 1 .. seq_of d2 c]" "seq_of d1 c \<le> seq_of d2 c"
    by simp_all
  show ?case
    using s r 1 2 upto_append [of "seq_of d c + 1" "seq_of d1 c" "seq_of d2 c"]
    by (simp add: ids_for_simps)
qed

text \<open>
  C2. A namespace without a counter gets 1 from its first \<open>getNextId\<close>. Whatever calls
  run from there (creations, logins, permission updates, deletions of employees), every
  id handed out before in the namespace is below the one the next \<open>getNextId\<close> returns;
  the ids of the namespace are 1, 2, 3, ... in the order of the calls, so they are
  strictly increasing and pairwise distinct, and a deletion gives none of them back.
\<close>

theorem getNextId_strictly_increasing:
  assumes "map_of (coll_counters d) c = None"
  shows "fst (getNextId c d) = 1 \<and>
         list_all (\<lambda>i. i < fst (getNextId c (snd (run bc es d)))) (ids_for c (fst (run bc es d))) \<and>
         ids_for c (fst (run bc es d)) = [1 .. int (length (ids_for c (fst (run bc es d))))] \<and>
         sorted_wrt (<) (ids_for c (fst (run bc es d))) \<and>
         distinct (ids_for c (fst (run bc es d)))"
proof -
  have z: "seq_of d c = 0" using assms by (simp add: seq_of_def)
  then have nn: "0 \<le> seq_of d c" by simp
  let ?d' = "snd (run bc es d)"
  from run_ids [OF nn, of bc es]
  have ids: "ids_for c (fst (run bc es d)) = [1 .. seq_of ?d' c]" and le: "0 \<le> seq_of ?d' c"
    using z by simp_all
  have first: "fst (getNextId c d) = 1" using fst_getNextId [OF nn] z by simp
  have nxt: "fst (getNextId c ?d') = seq_of ?d' c + 1" using fst_getNextId [OF le] .
  have len: "int (length [1 .. seq_of ?d' c]) = seq_of ?d' c" using le by simp
  show ?thesis
    unfolding ids len nxt
    using first by (auto simp: list_all_iff)
qed

theorem getNextId_strictly_increasing_witness:
  "map_of (coll_counters empty_db) ''users'' = None \<and>
   fst (getNextId ''users'' empty_db) = 1 \<and>
   ids_for ''users'' (fst (run example_bcrypt example_calls empty_db)) = [1, 2, 3] \<and>
   distinct (ids_for ''users'' (fst (run example_bcrypt example_calls empty_db)))"
proof -
  have h: "map_of (coll_counters empty_db) ''users'' = None" by (simp add: empty_db_def)
  have e: "ids_for ''users'' (fst (run example_bcrypt example_calls empty_db)) = [1, 2, 3]"
    by (simp add: example_calls_def empty_db_def createUser_def getNextId_def
        deleteEmployee_def Let_def insertOne_def mk_insert_user_def ids_for_def)
  show ?thesis
    using h e getNextId_strictly_increasing [OF h, of example_bcrypt example_calls] by blast
qed

section \<open>Proofs: the gates and the low-stock query\<close>

text \<open>
  C4. \<open>requirePermission(c)\<close> calls \<open>next()\<close> exactly when the session has a user and
  that user has role \<open>admin\<close> or the permission flag \<open>c\<close>; without a user it answers 401,
  with a user that has neither it answers 403, and a user with role \<open>admin\<close> passes
  whatever its flags are.
\<close>

theorem requirePermission_admits_iff:
  "(requirePermission c session = Next \<longleftrightarrow>
      (\<exists>u. session = Some u \<and>
           (su_role u = ''admin'' \<or> (\<exists>p. su_permissions u = Some p \<and> permission_flag c p)))) \<and>
   (session = None \<longrightarrow> requirePermission c session = Reject 401 ''Unauthorized'') \<and>
   (\<forall>u. session = Some u \<and> su_role u \<noteq> ''admin'' \<and>
        \<not> (\<exists>p. su_permissions u = Some p \<and> permission_flag c p) \<longrightarrow>
        requirePermission c session = Reject 403 ''Access denied'') \<and>
   (\<forall>u. session = Some u \<and> su_role u = ''admin'' \<longrightarrow> requirePermission c session = Next)"
  by (cases session) (auto simp: requirePermission_def split: option.splits)

theorem requirePermission_admits_iff_witness:
  "requirePermission Cap_reports
     (Some (mk_session 1 ''admin'' (Some employee_permissions))) = Next \<and>
   requirePermission Cap_reports
     (Some (mk_session 1 ''employee'' (Some employee_permissions))) = Reject 403 ''Access denied'' \<and>
   requirePermission Cap_pos (Some (mk_session 1 ''employee'' (Some employee_permissions))) = Next \<and>
   requirePermission Cap_pos None = Reject 401 ''Unauthorized''"
  using requirePermission_admits_iff [of Cap_reports "Some (mk_session 1 ''admin'' (Some employee_permissions))"]
    requirePermission_admits_iff [of Cap_reports "Some (mk_session 1 ''employee'' (Some employee_permissions))"]
    requirePermission_admits_iff [of Cap_pos "Some (mk_session 1 ''employee'' (Some employee_permissions))"]
    requirePermission_admits_iff [of Cap_pos None]
  by (simp add: mk_session_def employee_permissions_def)

text \<open>
  C6. \<open>getLowStockProducts(T)\<close> returns exactly the products of tenant \<open>T\<close> that are
  active and whose stock is at most their own threshold. A product of the tenant with
  stock 5 and threshold 5 is in the result, a product with stock 6 and threshold 5 is not.
\<close>

theorem getLowStockProducts_exact:
  "getLowStockProducts T d =
     filter (\<lambda>p. product_businessId p = T \<and> product_isActive p \<and>
                 product_stock p \<le> product_lowStockThreshold p) (coll_products d) \<and>
   (p \<in> set (getLowStockProducts T d) \<longleftrightarrow>
      p \<in> set (coll_products d) \<and> product_businessId p = T \<and> product_isActive p \<and>
      product_stock p \<le> product_lowStockThreshold p) \<and>
   (p \<in> set (coll_products d) \<and> product_businessId p = T \<and> product_isActive p \<and>
    product_stock p = 5 \<and> product_lowStockThreshold p = 5 \<longrightarrow>
      p \<in> set (getLowStockProducts T d)) \<and>
   (product_stock q = 6 \<and> product_lowStockThreshold q = 5 \<longrightarrow>
      q \<notin> set (getLowStockProducts T d))"
  by (auto simp: getLowStockProducts_def find_docs_def)

theorem getLowStockProducts_exact_witness:
  "mk_product 1 7 5 5 \<in> set (coll_products (empty_db\<lparr>coll_products := [mk_product 1 7 5 5, mk_product 2 7 6 5]\<rparr>)) \<and>
   product_isActive (mk_product 1 7 5 5) \<and>
   getLowStockProducts 7 (empty_db\<lparr>coll_products := [mk_product 1 7 5 5, mk_product 2 7 6 5]\<rparr>)
     = [mk_product 1 7 5 5] \<and>
   mk_product 1 7 5 5 \<in> set (getLowStockProducts 7 (empty_db\<lparr>coll_products := [mk_product 1 7 5 5, mk_product 2 7 6 5]\<rparr>)) \<and>
   mk_product 2 7 6 5 \<notin> set (getLowStockProducts 7 (empty_db\<lparr>coll_products := [mk_product 1 7 5 5, mk_product 2 7 6 5]\<rparr>))"
  using getLowStockProducts_exact [of 7 "empty_db\<lparr>coll_products := [mk_product 1 7 5 5, mk_product 2 7 6 5]\<rparr>"
      "mk_product 1 7 5 5" "mk_product 2 7 6 5"]
  by (simp add: mk_product_def)

section \<open>Proofs: users and credentials\<close>

text \<open>
  C8. \<open>createUser\<close> appends one user whose password field is the bcrypt hash of the
  payload's password (so it is not the plaintext, unless the hash of a password could be
  the password itself); without permissions in the payload the stored permissions are
  all six flags for role \<open>admin\<close> and \<open>pos\<close> alone for any other role, and permissions
  in the payload are stored as they are; the user returned is the stored one without its
  password field.
\<close>

theorem createUser_hashes_password:
  assumes "createUser bc salt now user d = (r, d')"
  shows "\<exists>stored. coll_users d' = coll_users d @ [stored] \<and>
           user_password stored = Some (bcrypt_hash bc (iu_password user) 12 salt) \<and>
           (bcrypt_hash bc (iu_password user) 12 salt \<noteq> iu_password user \<longrightarrow>
              user_password stored \<noteq> Some (iu_password user)) \<and>
           (iu_permissions user = None \<and> iu_role user = ''admin'' \<longrightarrow>
              user_permissions stored =
                \<lparr>perm_pos = True, perm_inventory = True, perm_customers = True,
                 perm_reports = True, perm_employees = True, perm_settings = True\<rparr>) \<and>
           (iu_permissions user = None \<and> iu_role user \<noteq> ''admin'' \<longrightarrow>
              user_permissions stored =
                \<lparr>perm_pos = True, perm_inventory = False, perm_customers = False,
                 perm_reports = False, perm_employees = False, perm_settings = False\<rparr>) \<and>
           (\<forall>p. iu_permissions user = Some p \<longrightarrow> user_permissions stored = p) \<and>
           r = stored\<lparr>user_password := None\<rparr> \<and>
           user_password r = None"
proof -
  obtain i d1 where g: "getNextId ''users'' d = (i, d1)" by (cases "getNextId ''users'' d")
  have u: "coll_users d1 = coll_users d" using g by (auto simp: getNextId_def Let_def)
  show ?thesis
    using assms g u
    by (auto simp: createUser_def Let_def insertOne_def admin_permissions_def
        employee_permissions_def)
qed

theorem createUser_hashes_password_witness:
  "bcrypt_hash example_bcrypt (iu_password (mk_insert_user 1 ''ann'' ''pw'' ''employee'')) 12 ''s1''
     \<noteq> iu_password (mk_insert_user 1 ''ann'' ''pw'' ''employee'') \<and>
   iu_permissions (mk_insert_user 1 ''ann'' ''pw'' ''employee'') = None \<and>
   iu_role (mk_insert_user 1 ''ann'' ''pw'' ''employee'') \<noteq> ''admin'' \<and>
   (\<exists>stored. coll_users (snd (createUser example_bcrypt ''s1'' 0
                  (mk_insert_user 1 ''ann'' ''pw'' ''employee'') empty_db)) = [stored] \<and>
      user_password stored = Some ''$2b$s1$pw'' \<and>
      user_permissions stored = employee_permissions) \<and>
   user_password (fst (createUser example_bcrypt ''s1'' 0
                  (mk_insert_user 1 ''ann'' ''pw'' ''employee'') empty_db)) = None"
proof -
  let ?u = "mk_insert_user 1 ''ann'' ''pw'' ''employee''"
  obtain r d' where e: "createUser example_bcrypt ''s1'' 0 ?u empty_db = (r, d')"
    by fastforce
  have h: "bcrypt_hash example_bcrypt (iu_password ?u) 12 ''s1'' = ''$2b$s1$pw''"
    "iu_password ?u = ''pw''" "iu_permissions ?u = None" "iu_role ?u = ''employee''"
    by (simp_all add: mk_insert_user_def example_bcrypt_def)
  have n: "coll_users empty_db = []" by (simp add: empty_db_def)
  from createUser_hashes_password [OF e] obtain stored where
    "coll_users d' = coll_users empty_db @ [stored]"
    "user_password stored = Some (bcrypt_hash example_bcrypt (iu_password ?u) 12 ''s1'')"
    "iu_permissions ?u = None \<and> iu_role ?u \<noteq> ''admin'' \<longrightarrow>
       user_permissions stored =
         \<lparr>perm_pos = True, perm_inventory = False, perm_customers = False,
          perm_reports = False, perm_employees = False, perm_settings = False\<rparr>"
    "user_password r = None"
    by blast
  then show ?thesis
    using h n by (simp add: e employee_permissions_def)
qed

lemma deleteOne_keeps:
  "(\<And>x. q x \<Longrightarrow> \<not> keep x) \<Longrightarrow> filter keep (snd (deleteOne q xs)) = filter keep xs"
  by (induction xs) (auto split: prod.splits)

lemma deleteOne_none:
  "\<forall>x\<in>set xs. \<not> q x \<Longrightarrow> deleteOne q xs = (0, xs)"
  by (induction xs) auto

lemma updateOne_distinct:
  "distinct (map k xs) \<Longrightarrow>
     updateOne (\<lambda>v. k v = a) f xs = map (\<lambda>v. if k v = a then f v else v) xs"
proof (induction xs)
  case Nil
  show ?case by simp
next
  case (Cons x xs)
  show ?case
  proof (cases "k x = a")
    case True
    with Cons.prems have "\<forall>v\<in>set xs. k v \<noteq> a" by (auto simp: image_iff)
    then have "map (\<lambda>v. if k v = a then f v else v) xs = xs"
      by (simp add: map_idI)
    with True show ?thesis by simp
  next
    case False
    with Cons show ?thesis by simp
  qed
qed

lemma findOne_Some:
  "findOne q xs = Some u \<Longrightarrow> u \<in> set xs \<and> q u"
  by (auto simp: findOne_def find_Some_iff)

lemma admins_deleteEmployee: "admins (snd (deleteEmployee i b d)) = admins d"
proof -
  have "filter (\<lambda>u. user_role u = ''admin'')
          (snd (deleteOne (\<lambda>u. user_id u = i \<and> user_businessId u = b \<and> user_role u \<noteq> ''admin'')
             (coll_users d))) = filter (\<lambda>u. user_role u = ''admin'') (coll_users d)"
    by (rule deleteOne_keeps) simp
  then show ?thesis
    by (auto simp: admins_def deleteEmployee_def split: prod.splits)
qed

lemma admins_deleteEmployees: "admins (deleteEmployees cs d) = admins d"
  by (induction cs d rule: deleteEmployees.induct) (simp_all add: admins_deleteEmployee)

lemma deleteEmployee_admin_id:
  assumes "u \<in> set (coll_users d)" and "user_role u = ''admin''"
    and "distinct (map user_id (coll_users d))"
  shows "deleteEmployee (user_id u) b d = (False, d)"
proof -
  have "v = u" if "v \<in> set (coll_users d)" "user_id v = user_id u" for v
    using assms(1,3) that by (meson distinct_map inj_onD)
  then have "\<forall>v\<in>set (coll_users d).
      \<not> (user_id v = user_id u \<and> user_businessId v = b \<and> user_role v \<noteq> ''admin'')"
    using assms(2) by auto
  from deleteOne_none [OF this] show ?thesis by (simp add: deleteEmployee_def)
qed

text \<open>
  C9. \<open>deleteEmployee\<close> leaves the administrators of the store as they are, for every
  id and tenant and over every sequence of calls. Called with the id of an administrator
  in a store with unique user ids, it deletes nothing and returns \<open>false\<close>, which the
  route reports as 404 \<open>Employee not found\<close>.
\<close>

theorem deleteEmployee_never_removes_admin:
  "admins (snd (deleteEmployee i b d)) = admins d \<and>
   admins (deleteEmployees calls d) = admins d \<and>
   (u \<in> set (coll_users d) \<and> user_role u = ''admin'' \<and> distinct (map user_id (coll_users d)) \<longrightarrow>
      deleteEmployee (user_id u) b d = (False, d) \<and>
      (requireAdmin session = Next \<longrightarrow>
         delete_employee session (user_id u) d = (Status 404 ''Employee not found'', d)))"
proof -
  have "delete_employee session (user_id u) d = (Status 404 ''Employee not found'', d)"
    if "u \<in> set (coll_users d)" "user_role u = ''admin''"
       "distinct (map user_id (coll_users d))" "requireAdmin session = Next"
  proof (cases session)
    case None
    with that(4) show ?thesis by (simp add: requireAdmin_def)
  next
    case (Some su)
    then show ?thesis
      using that(4) deleteEmployee_admin_id [OF that(1,2,3), of "su_businessId su"]
      by (simp add: delete_employee_def)
  qed
  then show ?thesis
    using admins_deleteEmployee admins_deleteEmployees deleteEmployee_admin_id by blast
qed

theorem deleteEmployee_never_removes_admin_witness:
  "mk_user 1 1 ''root'' ''$2b$s0$x'' ''admin'' \<in> set (coll_users staff_db) \<and>
   user_role (mk_user 1 1 ''root'' ''$2b$s0$x'' ''admin'') = ''admin'' \<and>
   distinct (map user_id (coll_users staff_db)) \<and>
   requireAdmin (Some (mk_session 1 ''admin'' None)) = Next \<and>
   deleteEmployee 1 1 staff_db = (False, staff_db) \<and>
   delete_employee (Some (mk_session 1 ''admin'' None)) 1 staff_db
     = (Status 404 ''Employee not found'', staff_db) \<and>
   admins (deleteEmployees [(1, 1), (2, 1), (1, 1)] staff_db) = admins staff_db"
proof -
  let ?a = "mk_user 1 1 ''root'' ''$2b$s0$x'' ''admin''"
  have h: "?a \<in> set (coll_users staff_db)" "user_role ?a = ''admin''"
    "distinct (map user_id (coll_users staff_db))"
    "requireAdmin (Some (mk_session 1 ''admin'' None)) = Next" "user_id ?a = 1"
    by (simp_all add: staff_db_def mk_user_def requireAdmin_def mk_session_def)
  note t = deleteEmployee_never_removes_admin [of 1 1 staff_db "[(1, 1), (2, 1), (1, 1)]" ?a
        "Some (mk_session 1 ''admin'' None)"]
  from t h(1-4) have
    "deleteEmployee (user_id ?a) 1 staff_db = (False, staff_db)"
    "delete_employee (Some (mk_session 1 ''admin'' None)) (user_id ?a) staff_db
       = (Status 404 ''Employee not found'', staff_db)"
    "admins (deleteEmployees [(1, 1), (2, 1), (1, 1)] staff_db) = admins staff_db"
    by blast+
  then show ?thesis
    using h(1-4) unfolding h(5) by blast
qed

lemma map_updateOne:
  "(\<And>x. k (f x) = k x) \<Longrightarrow> map k (updateOne q f xs) = map k xs"
  by (induction xs) auto

lemma deleteOne_sub:
  "set (snd (deleteOne q xs)) \<subseteq> set xs"
  "distinct (map k xs) \<Longrightarrow> distinct (map k (snd (deleteOne q xs)))"
  by (induction xs) (auto split: prod.splits)

lemma users_insertItems [simp]: "coll_users (insertItems i items d) = coll_users d"
  by (induction items arbitrary: d) (auto simp: getNextId_def Let_def)

lemma users_ids_login:
  "map user_id (coll_users (snd (getUserByUsernameAndPassword bc salt username password d)))
     = map user_id (coll_users d)"
  by (simp add: getUserByUsernameAndPassword_def Let_def map_updateOne split: option.splits)

lemma users_ids_updateUserPermissions:
  "map user_id (coll_users (snd (updateUserPermissions i b p d))) = map user_id (coll_users d)"
  by (simp add: updateUserPermissions_def Let_def map_updateOne split: option.splits)

lemma users_ids_toggleEmployeeStatus:
  "map user_id (coll_users (snd (toggleEmployeeStatus i b d))) = map user_id (coll_users d)"
  by (simp add: toggleEmployeeStatus_def Let_def map_updateOne split: option.splits)

lemma step_user_ids:
  assumes "step bc e d = (ids, d')"
    and "0 \<le> seq_of d ''users''"
    and "distinct (map user_id (coll_users d))"
    and "\<forall>u\<in>set (coll_users d). user_id u \<le> seq_of d ''users''"
  shows "0 \<le> seq_of d' ''users'' \<and> distinct (map user_id (coll_users d')) \<and>
         (\<forall>u\<in>set (coll_users d'). user_id u \<le> seq_of d' ''users'')"
proof -
  have mono: "seq_of d ''users'' \<le> seq_of d' ''users''"
    using step_ids [OF assms(2,1)] by simp
  have same: ?thesis if "map user_id (coll_users d') = map user_id (coll_users d)"
  proof -
    have "user_id ` set (coll_users d') = user_id ` set (coll_users d)"
      using that by (metis set_map)
    then have "\<forall>u\<in>set (coll_users d'). user_id u \<le> seq_of d ''users''"
      using assms(4) by (metis (no_types, lifting) image_iff)
    then show ?thesis using that assms(2,3) mono by fastforce
  qed
  show ?thesis
  proof (cases e)
    case (Call_getNextId n)
    then show ?thesis using assms(1) by (intro same) (auto simp: getNextId_def Let_def)
  next
    case (Call_createUser salt now user)
    obtain i d1 where g: "getNextId ''users'' d = (i, d1)" by (cases "getNextId ''users'' d")
    have i: "i = seq_of d ''users'' + 1" using getNextId_eq(2) [OF g assms(2)] .
    have s: "seq_of d' ''users'' = seq_of d ''users'' + 1"
      and "\<exists>new. coll_users d' = coll_users d @ [new] \<and> user_id new = i"
      using assms(1) Call_createUser g getNextId_eq(1) [OF g, of "''users''"] getNextId_eq(3) [OF g]
      by (auto simp: createUser_def Let_def insertOne_def)
    then obtain new where u: "coll_users d' = coll_users d @ [new]" "user_id new = i"
      by blast
    have "i \<notin> user_id ` set (coll_users d)" using assms(4) i by auto
    then show ?thesis
      unfolding u(1) s using assms(2,3,4) u(2) i by auto
  next
    case (Call_createBusiness now b)
    then show ?thesis using assms(1)
      by (intro same) (auto simp: createBusiness_def getNextId_def Let_def)
  next
    case (Call_createCategory now b)
    then show ?thesis using assms(1)
      by (intro same) (auto simp: createCategory_def getNextId_def Let_def)
  next
    case (Call_createProduct now b)
    then show ?thesis using assms(1)
      by (intro same) (auto simp: createProduct_def getNextId_def Let_def)
  next
    case (Call_createCustomer now b)
    then show ?thesis using assms(1)
      by (intro same) (auto simp: createCustomer_def getNextId_def Let_def)
  next
    case (Call_createTransaction now t items)
    then show ?thesis using assms(1)
      by (intro same) (auto simp: createTransaction_def getNextId_def Let_def)
  next
    case (Call_login salt username password)
    then show ?thesis using assms(1) users_ids_login by (intro same) auto
  next
    case (Call_updateUserPermissions i b p)
    then show ?thesis using assms(1) users_ids_updateUserPermissions by (intro same) auto
  next
    case (Call_toggleEmployeeStatus i b)
    then show ?thesis using assms(1) users_ids_toggleEmployeeStatus by (intro same) auto
  next
    case (Call_deleteEmployee i b)
    let ?q = "\<lambda>u. user_id u = i \<and> user_businessId u = b \<and> user_role u \<noteq> ''admin''"
    have d': "coll_users d' = snd (deleteOne ?q (coll_users d))"
      and s: "seq_of d' ''users'' = seq_of d ''users''"
      using assms(1) Call_deleteEmployee
      by (auto simp: deleteEmployee_def split: prod.splits)
    show ?thesis
      unfolding d' s
      using assms(2,3,4) deleteOne_sub(1) [where q = ?q and xs = "coll_users d"]
        deleteOne_sub(2) [where k = user_id and q = ?q and xs = "coll_users d"]
      by blast
  qed
qed

lemma run_user_ids:
  assumes "0 \<le> seq_of d ''users''"
    and "distinct (map user_id (coll_users d))"
    and "\<forall>u\<in>set (coll_users d). user_id u \<le> seq_of d ''users''"
  shows "0 \<le> seq_of (snd (run bc es d)) ''users'' \<and>
         distinct (map user_id (coll_users (snd (run bc es d)))) \<and>
         (\<forall>u\<in>set (coll_users (snd (run bc es d))). user_id u \<le> seq_of (snd (run bc es d)) ''users'')"
  using assms
proof (induction es arbitrary: d)
  case Nil
  then show ?case by simp
next
  case (Cons e es)
  obtain ids d1 where s: "step bc e d = (ids, d1)" by (cases "step bc e d")
  from step_user_ids [OF s Cons.prems]
  have "0 \<le> seq_of d1 ''users''" "distinct (map user_id (coll_users d1))"
    "\<forall>u\<in>set (coll_users d1). user_id u \<le> seq_of d1 ''users''" by simp_all
  from Cons.IH [OF this] show ?case using s by (cases "run bc es d1") simp
qed

text \<open>In every state the storage calls reach from the empty store, user ids are unique.\<close>

lemma reachable_user_ids_distinct:
  "distinct (map user_id (coll_users (snd (run bc es empty_db))))"
  using run_user_ids [of empty_db bc es] by (simp add: empty_db_def seq_of_def)

lemma login_query_password [simp]:
  "login_query t (v\<lparr>user_password := p\<rparr>) = login_query t v"
  by (simp add: login_query_def)

lemma find_first_index:
  "List.find q xs = Some u \<Longrightarrow> \<exists>i<length xs. xs ! i = u \<and> q u \<and> (\<forall>j<i. \<not> q (xs ! j))"
  by (auto simp: find_Some_iff)

lemma find_at_first:
  "i < length xs \<Longrightarrow> q (xs ! i) \<Longrightarrow> \<forall>j<i. \<not> q (xs ! j) \<Longrightarrow> List.find q xs = Some (xs ! i)"
  by (auto simp: find_Some_iff)

lemma updateOne_at_first:
  "i < length xs \<Longrightarrow> q (xs ! i) \<Longrightarrow> \<forall>j<i. \<not> q (xs ! j) \<Longrightarrow>
     updateOne q f xs = xs[i := f (xs ! i)]"
proof (induction xs arbitrary: i)
  case Nil
  then show ?case by simp
next
  case (Cons x xs)
  show ?case
  proof (cases i)
    case 0
    with Cons.prems show ?thesis by simp
  next
    case (Suc k)
    have nq: "\<not> q x" using Cons.prems(3) Suc by fastforce
    have "k < length xs" "q (xs ! k)" "\<forall>j<k. \<not> q (xs ! j)"
      using Cons.prems Suc by fastforce+
    from Cons.IH [OF this] show ?thesis using nq Suc by simp
  qed
qed

text \<open>
  C3, as the code has it. Let the login lookup resolve the identifier to \<open>u\<close> (\<open>u\<close> is
  the first active user whose user name or email is the trimmed identifier), let \<open>u\<close>
  also be the first stored user with its id (as it is when user ids are unique), let
  its password field hold the plaintext \<open>P\<close>, and let bcrypt not accept \<open>P\<close> as a hash of
  itself and accept the hash it makes of \<open>P\<close>. Then the login with \<open>P\<close> succeeds and
  replaces the stored password of \<open>u\<close>, and nothing else in the store, by the hash of
  \<open>P\<close>; after it the lookup finds the migrated user, the legacy branch is not taken for
  it, and a second login with \<open>P\<close> succeeds and leaves the store as it is.
\<close>

theorem legacy_password_migrated_once:
  assumes found: "findOne (login_query (trim username)) (coll_users d) = Some u"
    and first_id: "findOne (\<lambda>v. user_id v = user_id u) (coll_users d) = Some u"
    and plain: "user_password u = Some P"
    and legacy: "\<not> bcrypt_compare bc P P"
    and sound: "bcrypt_compare bc P (bcrypt_hash bc P 12 salt)"
  shows "\<exists>i d1. i < length (coll_users d) \<and> coll_users d ! i = u \<and>
           d1 = d\<lparr>coll_users :=
                  (coll_users d)[i := u\<lparr>user_password := Some (bcrypt_hash bc P 12 salt)\<rparr>]\<rparr> \<and>
           getUserByUsernameAndPassword bc salt username P d =
             (Some (u\<lparr>user_password := Some (bcrypt_hash bc P 12 salt)\<rparr>), d1) \<and>
           findOne (login_query (trim username)) (coll_users d1) =
             Some (u\<lparr>user_password := Some (bcrypt_hash bc P 12 salt)\<rparr>) \<and>
           \<not> legacy_fallback bc P (u\<lparr>user_password := Some (bcrypt_hash bc P 12 salt)\<rparr>) \<and>
           getUserByUsernameAndPassword bc salt' username P d1 =
             (Some (u\<lparr>user_password := Some (bcrypt_hash bc P 12 salt)\<rparr>), d1)"
proof -
  let ?h = "bcrypt_hash bc P 12 salt"
  let ?u' = "u\<lparr>user_password := Some ?h\<rparr>"
  let ?xs = "coll_users d"
  let ?q = "login_query (trim username)"
  let ?qi = "\<lambda>v. user_id v = user_id u"
  from found obtain i where i: "i < length ?xs" "?xs ! i = u" "?q u" "\<forall>j<i. \<not> ?q (?xs ! j)"
    unfolding findOne_def using find_first_index [of ?q ?xs u] by blast
  from first_id obtain k where k: "k < length ?xs" "?xs ! k = u" "\<forall>j<k. \<not> ?qi (?xs ! j)"
    unfolding findOne_def using find_first_index [of ?qi ?xs u] by blast
  have "\<not> i < k" using k(3) i(2) by auto
  moreover have "\<not> k < i" using i(4) k(2) i(3) by auto
  ultimately have ik: "k = i" by simp
  have upd: "updateOne ?qi (\<lambda>v. v\<lparr>user_password := Some ?h\<rparr>) ?xs = ?xs[i := ?u']"
    using updateOne_at_first [of i ?xs ?qi "\<lambda>v. v\<lparr>user_password := Some ?h\<rparr>"] i(1,2) k(3) ik
    by simp
  let ?d1 = "d\<lparr>coll_users := ?xs[i := ?u']\<rparr>"
  have fb: "legacy_fallback bc P u"
    using plain legacy by (simp add: legacy_fallback_def bcrypt_valid_def)
  have first: "getUserByUsernameAndPassword bc salt username P d = (Some ?u', ?d1)"
    using found fb upd by (simp add: getUserByUsernameAndPassword_def Let_def)
  have "List.find ?q (?xs[i := ?u']) = Some ((?xs[i := ?u']) ! i)"
  proof (rule find_at_first)
    show "i < length (?xs[i := ?u'])" using i(1) by simp
    show "?q ((?xs[i := ?u']) ! i)" using i(1,3) by simp
    show "\<forall>j<i. \<not> ?q ((?xs[i := ?u']) ! j)" using i(4) by simp
  qed
  then have found': "findOne ?q (coll_users ?d1) = Some ?u'"
    using i(1) by (simp add: findOne_def)
  have valid: "bcrypt_valid bc P ?u'" using sound by (simp add: bcrypt_valid_def)
  then have nofb: "\<not> legacy_fallback bc P ?u'" by (simp add: legacy_fallback_def)
  have second: "getUserByUsernameAndPassword bc salt' username P ?d1 = (Some ?u', ?d1)"
    using found' nofb valid by (simp add: getUserByUsernameAndPassword_def Let_def)
  show ?thesis
    using i(1,2) first found' nofb second
    by (intro exI [of _ i] exI [of _ ?d1]) simp
qed

theorem legacy_password_migrated_once_witness:
  "findOne (login_query (trim '' ann '')) (coll_users legacy_db)
     = Some (mk_user 1 1 ''ann'' ''secret'' ''employee'') \<and>
   findOne (\<lambda>v. user_id v = user_id (mk_user 1 1 ''ann'' ''secret'' ''employee''))
       (coll_users legacy_db)
     = Some (mk_user 1 1 ''ann'' ''secret'' ''employee'') \<and>
   user_password (mk_user 1 1 ''ann'' ''secret'' ''employee'') = Some ''secret'' \<and>
   \<not> bcrypt_compare example_bcrypt ''secret'' ''secret'' \<and>
   bcrypt_compare example_bcrypt ''secret'' (bcrypt_hash example_bcrypt ''secret'' 12 ''s1'') \<and>
   fst (getUserByUsernameAndPassword example_bcrypt ''s1'' '' ann '' ''secret'' legacy_db)
     = Some (mk_user 1 1 ''ann'' ''$2b$s1$secret'' ''employee'') \<and>
   coll_users (snd (getUserByUsernameAndPassword example_bcrypt ''s1'' '' ann '' ''secret'' legacy_db))
     = [mk_user 1 1 ''ann'' ''$2b$s1$secret'' ''employee''] \<and>
   getUserByUsernameAndPassword example_bcrypt ''s2'' '' ann '' ''secret''
       (snd (getUserByUsernameAndPassword example_bcrypt ''s1'' '' ann '' ''secret'' legacy_db))
     = (Some (mk_user 1 1 ''ann'' ''$2b$s1$secret'' ''employee''),
        snd (getUserByUsernameAndPassword example_bcrypt ''s1'' '' ann '' ''secret'' legacy_db))"
proof -
  let ?u = "mk_user 1 1 ''ann'' ''secret'' ''employee''"
  have t: "trim '' ann '' = ''ann''" by code_simp
  have h1: "findOne (login_query (trim '' ann '')) (coll_users legacy_db) = Some ?u"
    unfolding t by (simp add: findOne_def login_query_def legacy_db_def mk_user_def)
  have h1': "findOne (\<lambda>v. user_id v = user_id ?u) (coll_users legacy_db) = Some ?u"
    by (simp add: findOne_def legacy_db_def mk_user_def)
  have h2: "user_password ?u = Some ''secret''" by (simp add: mk_user_def)
  have h3: "\<not> bcrypt_compare example_bcrypt ''secret'' ''secret''"
    by (simp add: example_bcrypt_def)
  have hash: "bcrypt_hash example_bcrypt ''secret'' 12 ''s1'' = ''$2b$s1$secret''"
    by (simp add: example_bcrypt_def)
  have h4: "bcrypt_compare example_bcrypt ''secret'' (bcrypt_hash example_bcrypt ''secret'' 12 ''s1'')"
    unfolding hash by (simp add: example_bcrypt_def)
  have u': "?u\<lparr>user_password := Some ''$2b$s1$secret''\<rparr>
      = mk_user 1 1 ''ann'' ''$2b$s1$secret'' ''employee''"
    by (simp add: mk_user_def)
  have len: "length (coll_users legacy_db) = 1" "coll_users legacy_db = [?u]"
    by (simp_all add: legacy_db_def)
  from legacy_password_migrated_once [OF h1 h1' h2 h3 h4, of "''s2''"]
  obtain i d1 where
    0: "i < length (coll_users legacy_db)"
    and 1: "getUserByUsernameAndPassword example_bcrypt ''s1'' '' ann '' ''secret'' legacy_db =
          (Some (mk_user 1 1 ''ann'' ''$2b$s1$secret'' ''employee''), d1)"
    and 2: "d1 = legacy_db\<lparr>coll_users := (coll_users legacy_db)
              [i := mk_user 1 1 ''ann'' ''$2b$s1$secret'' ''employee'']\<rparr>"
    and 3: "getUserByUsernameAndPassword example_bcrypt ''s2'' '' ann '' ''secret'' d1 =
          (Some (mk_user 1 1 ''ann'' ''$2b$s1$secret'' ''employee''), d1)"
    unfolding hash u' by blast
  from 0 have i0: "i = 0" using len(1) by simp
  have 4: "coll_users d1 = [mk_user 1 1 ''ann'' ''$2b$s1$secret'' ''employee'']"
    unfolding 2 i0 len(2) by simp
  show ?thesis
    using h1 h1' h2 h3 h4 3 4 by (simp add: 1)
qed

text \<open>
  C3 as the specification states it fails for an active legacy user the lookup does not
  resolve to: in \<open>shadow_db\<close> another active user carries the same user name and comes
  first, and the login with the legacy user's password is refused. It fails as well when
  an earlier user shares the id: in \<open>dup_db\<close> the hash is written to that other user, the
  legacy record keeps its plaintext, and the second login takes the legacy branch and
  rewrites the store again.
\<close>

theorem legacy_login_counterexample:
  "mk_user 2 2 ''ann'' ''secret'' ''employee'' \<in> set (coll_users shadow_db) \<and>
   user_isActive (mk_user 2 2 ''ann'' ''secret'' ''employee'') \<and>
   user_username (mk_user 2 2 ''ann'' ''secret'' ''employee'') = trim ''ann'' \<and>
   user_password (mk_user 2 2 ''ann'' ''secret'' ''employee'') = Some ''secret'' \<and>
   distinct (map user_id (coll_users shadow_db)) \<and>
   getUserByUsernameAndPassword example_bcrypt ''s1'' ''ann'' ''secret'' shadow_db
     = (None, shadow_db) \<and>
   findOne (login_query (trim ''ann'')) (coll_users dup_db)
     = Some (mk_user 1 1 ''ann'' ''secret'' ''employee'') \<and>
   fst (getUserByUsernameAndPassword example_bcrypt ''s1'' ''ann'' ''secret'' dup_db)
     = Some (mk_user 1 1 ''ann'' ''$2b$s1$secret'' ''employee'') \<and>
   coll_users (snd (getUserByUsernameAndPassword example_bcrypt ''s1'' ''ann'' ''secret'' dup_db))
     = [mk_user 1 1 ''bob'' ''$2b$s1$secret'' ''employee'',
        mk_user 1 1 ''ann'' ''secret'' ''employee''] \<and>
   legacy_fallback example_bcrypt ''secret'' (mk_user 1 1 ''ann'' ''secret'' ''employee'') \<and>
   snd (getUserByUsernameAndPassword example_bcrypt ''s2'' ''ann'' ''secret''
          (snd (getUserByUsernameAndPassword example_bcrypt ''s1'' ''ann'' ''secret'' dup_db)))
     \<noteq> snd (getUserByUsernameAndPassword example_bcrypt ''s1'' ''ann'' ''secret'' dup_db)"
  by code_simp

text \<open>
  C10. A successful login returns the user the lookup found with a password field: the
  stored hash when bcrypt accepts the password, the fresh hash on the legacy path. With
  unique user ids the value returned is a document of the store after the call.
\<close>

theorem login_returns_password:
  assumes "getUserByUsernameAndPassword bc salt username password d = (Some r, d')"
  shows "\<exists>u h. findOne (login_query (trim username)) (coll_users d) = Some u \<and>
           r = u\<lparr>user_password := Some h\<rparr> \<and> user_password r = Some h \<and>
           ((user_password u = Some h \<and> bcrypt_compare bc password h \<and> d' = d) \<or>
            (user_password u = Some password \<and> h = bcrypt_hash bc password 12 salt \<and>
             legacy_fallback bc password u)) \<and>
           (distinct (map user_id (coll_users d)) \<longrightarrow> r \<in> set (coll_users d'))"
proof -
  let ?q = "login_query (trim username)"
  obtain u where found: "findOne ?q (coll_users d) = Some u"
    using assms by (auto simp: getUserByUsernameAndPassword_def Let_def split: option.splits)
  then have mem: "u \<in> set (coll_users d)" by (simp add: findOne_Some)
  show ?thesis
  proof (cases "legacy_fallback bc password u")
    case True
    let ?h = "bcrypt_hash bc password 12 salt"
    have r: "r = u\<lparr>user_password := Some ?h\<rparr>"
      and d': "coll_users d' = updateOne (\<lambda>v. user_id v = user_id u)
                 (\<lambda>v. v\<lparr>user_password := Some ?h\<rparr>) (coll_users d)"
      using assms found True by (auto simp: getUserByUsernameAndPassword_def Let_def)
    have "r \<in> set (coll_users d')" if "distinct (map user_id (coll_users d))"
      unfolding d' updateOne_distinct [OF that] r using mem by (auto simp: image_iff)
    then show ?thesis
      using found r True by (auto simp: legacy_fallback_def)
  next
    case False
    have v: "bcrypt_valid bc password u" and r: "r = u" and d': "d' = d"
      using assms found False
      by (auto simp: getUserByUsernameAndPassword_def Let_def split: if_splits)
    from v obtain h where h: "user_password u = Some h" "bcrypt_compare bc password h"
      by (auto simp: bcrypt_valid_def split: option.splits)
    have "u = u\<lparr>user_password := Some h\<rparr>" using h(1) by (cases u) simp
    then show ?thesis using found r d' h mem by auto
  qed
qed

theorem login_returns_password_witness:
  "getUserByUsernameAndPassword example_bcrypt ''s9'' ''ann'' ''y'' staff_db
     = (Some (mk_user 2 1 ''ann'' ''$2b$s1$y'' ''employee''), staff_db) \<and>
   user_password (mk_user 2 1 ''ann'' ''$2b$s1$y'' ''employee'') = Some ''$2b$s1$y'' \<and>
   mk_user 2 1 ''ann'' ''$2b$s1$y'' ''employee'' \<in> set (coll_users staff_db)"
proof -
  have t: "trim ''ann'' = ''ann''" by code_simp
  have f: "findOne (login_query ''ann'') (coll_users staff_db)
      = Some (mk_user 2 1 ''ann'' ''$2b$s1$y'' ''employee'')"
    by (simp add: findOne_def login_query_def staff_db_def mk_user_def)
  have v: "bcrypt_valid example_bcrypt ''y'' (mk_user 2 1 ''ann'' ''$2b$s1$y'' ''employee'')"
    by (simp add: bcrypt_valid_def mk_user_def example_bcrypt_def)
  have e: "getUserByUsernameAndPassword example_bcrypt ''s9'' ''ann'' ''y'' staff_db
     = (Some (mk_user 2 1 ''ann'' ''$2b$s1$y'' ''employee''), staff_db)"
    using f v by (simp add: getUserByUsernameAndPassword_def t legacy_fallback_def)
  have d: "distinct (map user_id (coll_users staff_db))"
    by (simp add: staff_db_def mk_user_def)
  from login_returns_password [OF e] d
  have "mk_user 2 1 ''ann'' ''$2b$s1$y'' ''employee'' \<in> set (coll_users staff_db)"
    by blast
  then show ?thesis
    using e by (simp add: mk_user_def)
qed

text \<open>
  C5. When the business of the session already has ten or more users with a role other
  than \<open>admin\<close>, \<open>POST /api/employees\<close> leaves the store as it is (users and employee
  count included) and answers with an error, for an administrator with 400
  \<open>Maximum of 10 employees allowed\<close>. It answers with a created employee only when the
  count before the call was at most 9.
\<close>

theorem post_employees_capacity:
  "(session = Some su \<and> 10 \<le> getEmployeeCount (su_businessId su) d \<longrightarrow>
      snd (post_employees parse bc salt now session body d) = d \<and>
      coll_users (snd (post_employees parse bc salt now session body d)) = coll_users d \<and>
      getEmployeeCount (su_businessId su) (snd (post_employees parse bc salt now session body d))
        = getEmployeeCount (su_businessId su) d \<and>
      (\<exists>code message. fst (post_employees parse bc salt now session body d) = Status code message) \<and>
      (requireAdmin session = Next \<longrightarrow>
         post_employees parse bc salt now session body d =
           (Status 400 ''Maximum of 10 employees allowed'', d))) \<and>
   (\<forall>e d'. post_employees parse bc salt now session body d = (Json e, d') \<longrightarrow>
      (\<exists>a. session = Some a \<and> su_role a = ''admin'' \<and> getEmployeeCount (su_businessId a) d \<le> 9))"
proof -
  have A: "post_employees parse bc salt now session body d =
      (Status 400 ''Maximum of 10 employees allowed'', d)"
    if "session = Some su" "10 \<le> getEmployeeCount (su_businessId su) d" "requireAdmin session = Next"
    using that by (simp add: post_employees_def)
  have B: "snd (post_employees parse bc salt now session body d) = d \<and>
      (\<exists>code message. fst (post_employees parse bc salt now session body d) = Status code message)"
    if "session = Some su" "10 \<le> getEmployeeCount (su_businessId su) d"
  proof (cases "requireAdmin session")
    case Next
    from A [OF that this] show ?thesis by simp
  next
    case (Reject c m)
    then show ?thesis by (simp add: post_employees_def)
  qed
  have C: "\<exists>a. session = Some a \<and> su_role a = ''admin'' \<and> getEmployeeCount (su_businessId a) d \<le> 9"
    if "post_employees parse bc salt now session body d = (Json e, d')" for e d'
    using that
    by (auto simp: post_employees_def requireAdmin_def Let_def
        split: option.splits if_splits sum.splits prod.splits gate.splits)
  show ?thesis using A B C by auto
qed

theorem post_employees_capacity_witness:
  "10 \<le> getEmployeeCount (su_businessId (mk_session 1 ''admin'' None)) full_db \<and>
   requireAdmin (Some (mk_session 1 ''admin'' None)) = Next \<and>
   post_employees example_parse example_bcrypt ''s'' 0 (Some (mk_session 1 ''admin'' None))
       ''zoe'' full_db
     = (Status 400 ''Maximum of 10 employees allowed'', full_db) \<and>
   getEmployeeCount 1 (snd (post_employees example_parse example_bcrypt ''s'' 0
       (Some (mk_session 1 ''admin'' None)) ''zoe'' full_db)) = 10 \<and>
   (\<exists>e d'. post_employees example_parse example_bcrypt ''s'' 0 (Some (mk_session 1 ''admin'' None))
       ''zoe'' staff_db = (Json e, d')) \<and>
   getEmployeeCount 1 staff_db \<le> 9"
proof -
  let ?s = "Some (mk_session 1 ''admin'' None)"
  have c: "getEmployeeCount 1 full_db = 10"
    by (simp add: getEmployeeCount_def countDocuments_def full_db_def mk_user_def empty_db_def)
  have b: "su_businessId (mk_session 1 ''admin'' None) = 1" by (simp add: mk_session_def)
  have a: "requireAdmin ?s = Next" by (simp add: requireAdmin_def mk_session_def)
  have c2: "getEmployeeCount 1 staff_db = 1"
    by (simp add: getEmployeeCount_def countDocuments_def staff_db_def mk_user_def empty_db_def)
  have ok: "\<exists>e d'. post_employees example_parse example_bcrypt ''s'' 0 ?s ''zoe'' staff_db
      = (Json e, d')"
    using a c2 b by (simp add: post_employees_def example_parse_def split: prod.splits)
  show ?thesis
    using a b c c2 ok
      post_employees_capacity [of ?s "mk_session 1 ''admin'' None" full_db example_parse
        example_bcrypt "''s''" 0 "''zoe''"]
    by simp
qed

section \<open>Proofs: top products\<close>

lemma same_conv: "(\<lambda>(j, q, s). item_productId j = k) = (\<lambda>x. doc_key x = k)"
  by (auto simp: doc_key_def)

lemma tp_groups_keys:
  "set (map grp_key (tp_groups eng ds)) = doc_key ` set ds \<and>
   distinct (map grp_key (tp_groups eng ds))"
proof (induction eng ds rule: tp_groups.induct)
  case (1 eng)
  show ?case by simp
next
  case (2 eng i p r ds)
  let ?same = "\<lambda>(j, q, s). item_productId j = item_productId i"
  let ?rest = "filter (\<lambda>x. \<not> ?same x) ds"
  have IH: "set (map grp_key (tp_groups eng ?rest)) = doc_key ` set ?rest"
    "distinct (map grp_key (tp_groups eng ?rest))"
    using "2.IH" [OF refl refl] by simp_all
  have k: "doc_key ` set ?rest = doc_key ` set ds - {item_productId i}"
    by (auto simp: doc_key_def)
  show ?case
    using IH k by (auto simp: Let_def doc_key_def)
qed

lemma filter_filter_imp:
  "(\<And>x. P x \<Longrightarrow> Q x) \<Longrightarrow> filter P (filter Q xs) = filter P xs"
  by (induction xs) auto

lemma tp_groups_content:
  "g \<in> set (tp_groups eng ds) \<Longrightarrow>
     (\<exists>i p r ms. filter (\<lambda>x. doc_key x = grp_key g) ds = (i, p, r) # ms \<and>
        grp_product g = p \<and>
        grp_soldCount g = sum_list (map (\<lambda>x. item_quantity (fst x)) ((i, p, r) # ms)) \<and>
        grp_revenue g = eng_sum eng (map (\<lambda>x. snd (snd x)) ((i, p, r) # ms)))"
proof (induction eng ds rule: tp_groups.induct)
  case (1 eng)
  then show ?case by simp
next
  case (2 eng i p r ds)
  let ?same = "\<lambda>(j, q, s). item_productId j = item_productId i"
  let ?rest = "filter (\<lambda>x. \<not> ?same x) ds"
  let ?members = "(i, p, r) # filter ?same ds"
  let ?g0 = "\<lparr>grp_key = item_productId i, grp_product = p,
          grp_soldCount = sum_list (map (\<lambda>(j, q, s). item_quantity j) ?members),
          grp_revenue = eng_sum eng (map (\<lambda>(j, q, s). s) ?members)\<rparr>"
  from "2.prems" have "g = ?g0 \<or> g \<in> set (tp_groups eng ?rest)"
    by (simp add: Let_def)
  then show ?case
  proof
    assume g: "g = ?g0"
    have f: "filter (\<lambda>x. doc_key x = item_productId i) ((i, p, r) # ds) = ?members"
      by (simp add: doc_key_def split_def)
    have k: "grp_key g = item_productId i" "grp_product g = p"
      "grp_soldCount g = sum_list (map (\<lambda>x. item_quantity (fst x)) ?members)"
      "grp_revenue g = eng_sum eng (map (\<lambda>x. snd (snd x)) ?members)"
      unfolding g by (simp_all add: split_def)
    show ?thesis
      unfolding k f by blast
  next
    assume g: "g \<in> set (tp_groups eng ?rest)"
    then have "grp_key g \<in> grp_key ` set (tp_groups eng ?rest)" by (rule imageI)
    then have "grp_key g \<in> doc_key ` set ?rest"
      using tp_groups_keys [of eng ?rest] by (simp only: set_map)
    then have ne: "grp_key g \<noteq> item_productId i" by (auto simp: doc_key_def)
    have "filter (\<lambda>x. doc_key x = grp_key g) ?rest = filter (\<lambda>x. doc_key x = grp_key g) ds"
      by (rule filter_filter_imp) (use ne in \<open>auto simp: doc_key_def\<close>)
    moreover have "filter (\<lambda>x. doc_key x = grp_key g) ((i, p, r) # ds)
        = filter (\<lambda>x. doc_key x = grp_key g) ds"
      using ne by (simp add: doc_key_def)
    ultimately have "filter (\<lambda>x. doc_key x = grp_key g) ((i, p, r) # ds)
        = filter (\<lambda>x. doc_key x = grp_key g) ?rest"
      by (simp only:)
    then show ?thesis
      using "2.IH" [OF refl refl g] by (simp only:)
  qed
qed


lemma tp_converted_Some:
  "tp_converted eng docs = Some ds \<Longrightarrow>
     map (\<lambda>x. (fst x, fst (snd x))) ds = docs \<and>
     (\<forall>x\<in>set ds. eng_toDouble eng (item_total (fst x)) = Some (snd (snd x)))"
proof (induction docs arbitrary: ds)
  case Nil
  then show ?case by (simp add: tp_converted_def)
next
  case (Cons a docs)
  obtain i p where a: "a = (i, p)" by (cases a)
  from Cons.prems obtain r ds' where
    r: "eng_toDouble eng (item_total i) = Some r"
    and ds': "tp_converted eng docs = Some ds'" and ds: "ds = (i, p, r) # ds'"
    unfolding tp_converted_def a
    by (auto split: option.splits)
  from Cons.IH [OF ds'] show ?case using r ds a by simp
qed

text \<open>What a group of the pipeline holds, read off the documents that reach \<open>$group\<close>.\<close>

lemma group_entry:
  assumes conv: "tp_converted eng docs = Some ds" and g: "g \<in> set (tp_groups eng ds)"
  shows "\<exists>x xs rs. filter (\<lambda>x. doc_key x = grp_key g) docs = x # xs \<and>
           grp_product g = snd x \<and>
           grp_soldCount g = sum_list (map (\<lambda>x. item_quantity (fst x)) (x # xs)) \<and>
           map (\<lambda>x. eng_toDouble eng (item_total (fst x))) (x # xs) = map Some rs \<and>
           grp_revenue g = eng_sum eng rs"
proof -
  let ?proj = "\<lambda>x :: MongoTransactionItem \<times> MongoProduct \<times> 'a. (fst x, fst (snd x))"
  from tp_converted_Some [OF conv]
  have docs: "docs = map ?proj ds"
    and dbl: "\<forall>x\<in>set ds. eng_toDouble eng (item_total (fst x)) = Some (snd (snd x))"
    by simp_all
  from tp_groups_content [OF g] obtain i p r ms where
    M: "filter (\<lambda>x. doc_key x = grp_key g) ds = (i, p, r) # ms"
    and gp: "grp_product g = p"
    and gs: "grp_soldCount g = sum_list (map (\<lambda>x. item_quantity (fst x)) ((i, p, r) # ms))"
    and gr: "grp_revenue g = eng_sum eng (map (\<lambda>x. snd (snd x)) ((i, p, r) # ms))"
    by blast
  let ?M = "(i, p, r) # ms"
  have sub: "set ?M \<subseteq> set ds" using M by (metis filter_is_subset)
  have "filter (\<lambda>x. doc_key x = grp_key g) docs
      = map ?proj (filter (\<lambda>x. doc_key x = grp_key g) ds)"
    unfolding docs by (simp add: filter_map comp_def doc_key_def)
  then have f: "filter (\<lambda>x. doc_key x = grp_key g) docs = (i, p) # map ?proj ms"
    unfolding M by simp
  have q: "sum_list (map (\<lambda>x. item_quantity (fst x)) ((i, p) # map ?proj ms))
      = sum_list (map (\<lambda>x. item_quantity (fst x)) ?M)"
    by (simp add: comp_def)
  have "map (\<lambda>x. eng_toDouble eng (item_total (fst x))) ((i, p) # map ?proj ms)
      = map (\<lambda>x. eng_toDouble eng (item_total (fst x))) ?M"
    by (simp add: comp_def)
  also have "\<dots> = map (\<lambda>x. Some (snd (snd x))) ?M"
    by (rule map_cong [OF refl]) (use dbl sub in blast)
  also have "\<dots> = map Some (map (\<lambda>x. snd (snd x)) ?M)" by (simp add: comp_def)
  finally have d: "map (\<lambda>x. eng_toDouble eng (item_total (fst x))) ((i, p) # map ?proj ms)
      = map Some (map (\<lambda>x. snd (snd x)) ?M)" .
  show ?thesis
    unfolding f
    using gp gs gr q d by (intro exI [of _ "(i, p)"] exI [of _ "map ?proj ms"]
        exI [of _ "map (\<lambda>x. snd (snd x)) ?M"]) simp
qed

lemma tp_matched_iff:
  "i \<in> set (tp_matched T d) \<longleftrightarrow>
     i \<in> set (coll_transactionItems d) \<and>
     (\<exists>t\<in>set (coll_transactions d). tx_id t = item_transactionId i \<and> tx_businessId t = T) \<and>
     (\<exists>t\<in>set (coll_transactions d). tx_id t = item_transactionId i \<and> tx_status t = ''completed'')"
  unfolding tp_matched_def Let_def list_ex_iff set_filter by blast

lemma tp_unwound_matched:
  "(i, p) \<in> set (tp_unwound T d) \<longleftrightarrow>
     i \<in> set (tp_matched T d) \<and> p \<in> set (coll_products d) \<and> product_id p = item_productId i"
  unfolding tp_unwound_def by (auto simp: image_iff)

lemma tp_unwound_iff:
  "(i, p) \<in> set (tp_unwound T d) \<longleftrightarrow>
     i \<in> set (coll_transactionItems d) \<and> p \<in> set (coll_products d) \<and>
     product_id p = item_productId i \<and>
     (\<exists>t\<in>set (coll_transactions d). tx_id t = item_transactionId i \<and> tx_businessId t = T) \<and>
     (\<exists>t\<in>set (coll_transactions d). tx_id t = item_transactionId i \<and> tx_status t = ''completed'')"
  unfolding tp_unwound_matched tp_matched_iff by blast

lemma tp_unwound_iff_distinct:
  assumes "distinct (map tx_id (coll_transactions d))"
  shows "(i, p) \<in> set (tp_unwound T d) \<longleftrightarrow>
     i \<in> set (coll_transactionItems d) \<and> p \<in> set (coll_products d) \<and>
     product_id p = item_productId i \<and>
     (\<exists>t\<in>set (coll_transactions d). tx_id t = item_transactionId i \<and> tx_businessId t = T \<and>
        tx_status t = ''completed'')"
proof -
  have u: "t = t'" if "t \<in> set (coll_transactions d)" "t' \<in> set (coll_transactions d)"
    "tx_id t = tx_id t'" for t t'
    using assms that by (meson distinct_map inj_onD)
  have "(\<exists>t\<in>set (coll_transactions d). tx_id t = k \<and> tx_businessId t = T) \<and>
     (\<exists>t\<in>set (coll_transactions d). tx_id t = k \<and> tx_status t = ''completed'') \<longleftrightarrow>
     (\<exists>t\<in>set (coll_transactions d). tx_id t = k \<and> tx_businessId t = T \<and>
        tx_status t = ''completed'')" for k
    using u by metis
  then show ?thesis
    unfolding tp_unwound_iff by simp
qed

lemma project_top_simps [simp]:
  "top_key (project_top eng g) = grp_key g"
  "top_product (project_top eng g) = grp_product g"
  "top_soldCount (project_top eng g) = grp_soldCount g"
  "top_revenue (project_top eng g) = eng_toString eng (grp_revenue g)"
  by (simp_all add: project_top_def)

text \<open>The result of the pipeline, when it answers.\<close>

lemma getTopProducts_result:
  assumes emit: "\<forall>gs. mset (eng_emit eng gs) = mset gs"
    and res: "getTopProducts eng T n d = Inr r"
  shows "(distinct (map tx_id (coll_transactions d)) \<longrightarrow>
       (\<forall>i p. (i, p) \<in> set (tp_unwound T d) \<longleftrightarrow>
          i \<in> set (coll_transactionItems d) \<and> p \<in> set (coll_products d) \<and>
          product_id p = item_productId i \<and>
          (\<exists>t\<in>set (coll_transactions d). tx_id t = item_transactionId i \<and>
             tx_businessId t = T \<and> tx_status t = ''completed''))) \<and>
     length r \<le> n \<and>
     sorted_wrt (\<lambda>a b. top_soldCount b \<le> top_soldCount a) r \<and>
     distinct (map top_key r) \<and>
     length r = min n (card (doc_key ` set (tp_unwound T d))) \<and>
     list_all (\<lambda>e. \<exists>x xs rs.
         filter (\<lambda>x. doc_key x = top_key e) (tp_unwound T d) = x # xs \<and>
         top_product e = snd x \<and>
         top_soldCount e = sum_list (map (\<lambda>x. item_quantity (fst x)) (x # xs)) \<and>
         map (\<lambda>x. eng_toDouble eng (item_total (fst x))) (x # xs) = map Some rs \<and>
         top_revenue e = eng_toString eng (eng_sum eng rs)) r \<and>
     (\<forall>k\<in>doc_key ` set (tp_unwound T d). k \<notin> set (map top_key r) \<longrightarrow>
        list_all (\<lambda>e. sum_list (map (\<lambda>x. item_quantity (fst x))
                              (filter (\<lambda>x. doc_key x = k) (tp_unwound T d)))
                        \<le> top_soldCount e) r) \<and>
     (\<exists>ds. tp_converted eng (tp_unwound T d) = Some ds \<and>
        (\<forall>c. prefix (filter (\<lambda>e. top_soldCount e = c) r)
               (map (project_top eng)
                  (filter (\<lambda>g. grp_soldCount g = c) (eng_emit eng (tp_groups eng ds))))))"
proof -
  let ?docs = "tp_unwound T d"
  let ?f = "\<lambda>g :: 'a TopGroup. - grp_soldCount g"
  from res obtain ds where conv: "tp_converted eng ?docs = Some ds"
    and n: "n \<noteq> 0"
    by (auto simp: getTopProducts_def split: if_splits option.splits)
  let ?gs = "tp_groups eng ds"
  let ?E = "eng_emit eng ?gs"
  let ?S = "sort_key ?f ?E"
  let ?L = "take n ?S"
  have r: "r = map (project_top eng) ?L"
    using res conv n by (simp add: getTopProducts_def)
  have msetE: "mset ?E = mset ?gs" using emit by blast
  have msetS: "mset ?S = mset ?gs" using msetE by simp
  have setL: "set ?L \<subseteq> set ?gs"
    using set_take_subset [of n ?S] mset_eq_setD [OF msetS] by blast
  have docs: "?docs = map (\<lambda>x. (fst x, fst (snd x))) ds"
    using tp_converted_Some [OF conv] by simp
  have keys: "doc_key ` set ds = doc_key ` set ?docs"
    unfolding docs by (simp add: image_image doc_key_def)
  \<comment> \<open>at most n entries\<close>
  have 1: "length r \<le> n" unfolding r by simp
  \<comment> \<open>descending by soldCount\<close>
  have "sorted (map ?f ?S)" by (rule sorted_sort_key)
  then have srtS: "sorted_wrt (\<lambda>a b. grp_soldCount b \<le> grp_soldCount a) ?S"
    by (simp add: sorted_wrt_map)
  from srtS have "sorted_wrt (\<lambda>a b. grp_soldCount b \<le> grp_soldCount a) ?L"
    by (rule sorted_wrt_take)
  then have 2: "sorted_wrt (\<lambda>a b. top_soldCount b \<le> top_soldCount a) r"
    unfolding r by (simp add: sorted_wrt_map)
  \<comment> \<open>one entry per product\<close>
  have dk: "distinct (map grp_key ?gs)" using tp_groups_keys [of eng ds] by simp
  have "mset (map grp_key ?S) = mset (map grp_key ?gs)" using msetS by (metis mset_map)
  then have dS: "distinct (map grp_key ?S)"
    using dk mset_eq_imp_distinct_iff by blast
  then have "distinct (take n (map grp_key ?S))" by (rule distinct_take)
  then have 3: "distinct (map top_key r)"
    unfolding r by (simp add: take_map comp_def)
  \<comment> \<open>the number of entries\<close>
  have "length ?gs = card (set (map grp_key ?gs))"
    using distinct_card [OF dk] by simp
  also have "\<dots> = card (doc_key ` set ?docs)"
    using tp_groups_keys [of eng ds] keys by simp
  finally have lg: "length ?gs = card (doc_key ` set ?docs)" .
  have "length ?S = length ?gs" using mset_eq_length [OF msetS] .
  then have 4: "length r = min n (card (doc_key ` set ?docs))"
    unfolding r using lg by (simp add: min.commute)
  \<comment> \<open>what each entry holds\<close>
  have 5: "list_all (\<lambda>e. \<exists>x xs rs.
         filter (\<lambda>x. doc_key x = top_key e) ?docs = x # xs \<and>
         top_product e = snd x \<and>
         top_soldCount e = sum_list (map (\<lambda>x. item_quantity (fst x)) (x # xs)) \<and>
         map (\<lambda>x. eng_toDouble eng (item_total (fst x))) (x # xs) = map Some rs \<and>
         top_revenue e = eng_toString eng (eng_sum eng rs)) r"
    unfolding list_all_iff
  proof
    fix e assume "e \<in> set r"
    then obtain g where g: "g \<in> set ?gs" and e: "e = project_top eng g"
      using setL unfolding r by auto
    from group_entry [OF conv g] obtain x xs rs where
      "filter (\<lambda>x. doc_key x = grp_key g) ?docs = x # xs" "grp_product g = snd x"
      "grp_soldCount g = sum_list (map (\<lambda>x. item_quantity (fst x)) (x # xs))"
      "map (\<lambda>x. eng_toDouble eng (item_total (fst x))) (x # xs) = map Some rs"
      "grp_revenue g = eng_sum eng rs"
      by blast
    then show "\<exists>x xs rs.
         filter (\<lambda>x. doc_key x = top_key e) ?docs = x # xs \<and>
         top_product e = snd x \<and>
         top_soldCount e = sum_list (map (\<lambda>x. item_quantity (fst x)) (x # xs)) \<and>
         map (\<lambda>x. eng_toDouble eng (item_total (fst x))) (x # xs) = map Some rs \<and>
         top_revenue e = eng_toString eng (eng_sum eng rs)"
      unfolding e project_top_simps
      by (intro exI [of _ x] exI [of _ xs] exI [of _ rs]) simp
  qed
  \<comment> \<open>entries with equal soldCount keep the engine's order\<close>
  have 6: "prefix (filter (\<lambda>e. top_soldCount e = c) r)
      (map (project_top eng) (filter (\<lambda>g. grp_soldCount g = c) ?E))" for c
  proof -
    have "filter (\<lambda>g. ?f g = - c) ?S = filter (\<lambda>g. ?f g = - c) ?E"
      by (rule sort_key_stable)
    then have st: "filter (\<lambda>g. grp_soldCount g = c) ?S = filter (\<lambda>g. grp_soldCount g = c) ?E"
      by simp
    have "prefix (filter (\<lambda>g. grp_soldCount g = c) ?L) (filter (\<lambda>g. grp_soldCount g = c) ?S)"
      by (rule filter_mono_prefix) (rule take_is_prefix)
    then have "prefix (map (project_top eng) (filter (\<lambda>g. grp_soldCount g = c) ?L))
        (map (project_top eng) (filter (\<lambda>g. grp_soldCount g = c) ?E))"
      unfolding st by (rule map_mono_prefix)
    moreover have "filter (\<lambda>e. top_soldCount e = c) r
        = map (project_top eng) (filter (\<lambda>g. grp_soldCount g = c) ?L)"
      unfolding r by (simp add: filter_map comp_def)
    ultimately show ?thesis by simp
  qed
  from 6 have 7: "\<forall>c. prefix (filter (\<lambda>e. top_soldCount e = c) r)
      (map (project_top eng) (filter (\<lambda>g. grp_soldCount g = c) ?E))" by (rule allI)
  from conv 7 have 8: "\<exists>ds. tp_converted eng ?docs = Some ds \<and>
        (\<forall>c. prefix (filter (\<lambda>e. top_soldCount e = c) r)
               (map (project_top eng)
                  (filter (\<lambda>g. grp_soldCount g = c) (eng_emit eng (tp_groups eng ds)))))"
    by (intro exI [of _ ds] conjI)
  have 0: "distinct (map tx_id (coll_transactions d)) \<longrightarrow>
       (\<forall>i p. (i, p) \<in> set (tp_unwound T d) \<longleftrightarrow>
          i \<in> set (coll_transactionItems d) \<and> p \<in> set (coll_products d) \<and>
          product_id p = item_productId i \<and>
          (\<exists>t\<in>set (coll_transactions d). tx_id t = item_transactionId i \<and>
             tx_businessId t = T \<and> tx_status t = ''completed''))"
    using tp_unwound_iff_distinct [of d _ _ T] by blast
  \<comment> \<open>no product left out sold more than one returned\<close>
  have 9: "\<forall>k\<in>doc_key ` set ?docs. k \<notin> set (map top_key r) \<longrightarrow>
      list_all (\<lambda>e. sum_list (map (\<lambda>x. item_quantity (fst x))
                            (filter (\<lambda>x. doc_key x = k) ?docs))
                      \<le> top_soldCount e) r"
  proof (intro ballI impI)
    fix k assume k: "k \<in> doc_key ` set ?docs" and out: "k \<notin> set (map top_key r)"
    from k have "k \<in> set (map grp_key ?gs)"
      using tp_groups_keys [of eng ds] keys by simp
    then obtain g where g: "g \<in> set ?gs" "grp_key g = k" by auto
    have gL: "g \<notin> set ?L"
    proof
      assume "g \<in> set ?L"
      then have "project_top eng g \<in> set r" unfolding r by simp
      then have "top_key (project_top eng g) \<in> top_key ` set r" by (rule imageI)
      then have "grp_key g \<in> set (map top_key r)" by simp
      with out g(2) show False by simp
    qed
    have "g \<in> set ?S" using g(1) mset_eq_setD [OF msetS] by simp
    then have "g \<in> set (?L @ drop n ?S)" by simp
    with gL have gD: "g \<in> set (drop n ?S)" by (simp only: set_append Un_iff) blast
    from srtS have "sorted_wrt (\<lambda>a b. grp_soldCount b \<le> grp_soldCount a) (?L @ drop n ?S)"
      by simp
    then have dom: "\<forall>x\<in>set ?L. grp_soldCount g \<le> grp_soldCount x"
      using gD by (simp only: sorted_wrt_append) blast
    from group_entry [OF conv g(1)] obtain x xs where
      "filter (\<lambda>x. doc_key x = grp_key g) ?docs = x # xs"
      "grp_soldCount g = sum_list (map (\<lambda>x. item_quantity (fst x)) (x # xs))"
      by blast
    then have sold: "sum_list (map (\<lambda>x. item_quantity (fst x))
        (filter (\<lambda>x. doc_key x = k) ?docs)) = grp_soldCount g"
      using g(2) by simp
    show "list_all (\<lambda>e. sum_list (map (\<lambda>x. item_quantity (fst x))
                            (filter (\<lambda>x. doc_key x = k) ?docs))
                      \<le> top_soldCount e) r"
      unfolding sold r using dom by (simp add: list_all_iff)
  qed
  show ?thesis
    by (intro conjI) (rule 0 1 2 3 4 5 9 8)+
qed


lemma those_Some:
  "\<forall>x\<in>set xs. f x \<noteq> None \<Longrightarrow> \<exists>ys. those (map f xs) = Some ys"
  by (induction xs) auto

text \<open>The aggregation answers whenever the limit is positive and every total converts.\<close>

lemma getTopProducts_returns:
  assumes "0 < n"
    and "\<forall>x\<in>set (tp_unwound T d). eng_toDouble eng (item_total (fst x)) \<noteq> None"
  shows "\<exists>r. getTopProducts eng T n d = Inr r"
proof -
  have "\<forall>x\<in>set (tp_unwound T d).
      (case x of (i, p) \<Rightarrow> map_option (\<lambda>r. (i, p, r)) (eng_toDouble eng (item_total i))) \<noteq> None"
    using assms(2) by (auto simp: split_def)
  from those_Some [OF this] obtain ds where "tp_converted eng (tp_unwound T d) = Some ds"
    unfolding tp_converted_def by blast
  then show ?thesis using assms(1) by (simp add: getTopProducts_def)
qed

lemma getTopProducts_Inr_iff:
  "(\<exists>r. getTopProducts eng T n d = Inr r) \<longleftrightarrow>
     0 < n \<and> list_all (\<lambda>x. eng_toDouble eng (item_total (fst x)) \<noteq> None) (tp_unwound T d)"
proof
  assume "\<exists>r. getTopProducts eng T n d = Inr r"
  then obtain r ds where n: "0 < n" and c: "tp_converted eng (tp_unwound T d) = Some ds"
    by (auto simp: getTopProducts_def split: if_splits option.splits)
  from tp_converted_Some [OF c]
  have "map (\<lambda>x. (fst x, fst (snd x))) ds = tp_unwound T d"
    "\<forall>x\<in>set ds. eng_toDouble eng (item_total (fst x)) = Some (snd (snd x))" by simp_all
  then have "\<forall>x\<in>set (tp_unwound T d). eng_toDouble eng (item_total (fst x)) \<noteq> None"
    by (metis (no_types, lifting) fst_conv image_iff list.set_map option.distinct(1))
  with n show "0 < n \<and>
      list_all (\<lambda>x. eng_toDouble eng (item_total (fst x)) \<noteq> None) (tp_unwound T d)"
    by (simp add: list_all_iff)
next
  assume "0 < n \<and>
      list_all (\<lambda>x. eng_toDouble eng (item_total (fst x)) \<noteq> None) (tp_unwound T d)"
  then show "\<exists>r. getTopProducts eng T n d = Inr r"
    using getTopProducts_returns [of n T d eng] by (simp add: list_all_iff)
qed

text \<open>
  C7, as the code has it. Let the engine emit every group once, the limit \<open>n\<close> be
  positive and every total convert. Then \<open>getTopProducts(T, n)\<close> answers a list \<open>r\<close>. With
  unique transaction ids the documents that reach \<open>$group\<close> are the items of completed
  transactions of \<open>T\<close>, each with the product its \<open>productId\<close> names. \<open>r\<close> has at most
  \<open>n\<close> entries (\<open>n\<close>, or the number of products sold when that is smaller), is ordered by
  \<open>soldCount\<close> descending and has one entry per product; an entry holds the first
  product joined, the sum of the quantities and the engine's sum of the converted totals
  of its documents; no product left out of \<open>r\<close> sold more than a product in \<open>r\<close>. No
  secondary key orders the entries: those with equal \<open>soldCount\<close> come in the order in
  which the engine emits their groups.
\<close>

theorem getTopProducts_sorted_by_soldCount:
  assumes emit: "\<forall>gs. mset (eng_emit eng gs) = mset gs"
    and pos: "0 < n"
    and conv: "list_all (\<lambda>x. eng_toDouble eng (item_total (fst x)) \<noteq> None) (tp_unwound T d)"
  shows "(distinct (map tx_id (coll_transactions d)) \<longrightarrow>
       (\<forall>i p. (i, p) \<in> set (tp_unwound T d) \<longleftrightarrow>
          i \<in> set (coll_transactionItems d) \<and> p \<in> set (coll_products d) \<and>
          product_id p = item_productId i \<and>
          (\<exists>t\<in>set (coll_transactions d). tx_id t = item_transactionId i \<and>
             tx_businessId t = T \<and> tx_status t = ''completed''))) \<and>
     (\<exists>r. getTopProducts eng T n d = Inr r \<and>
       length r \<le> n \<and>
       sorted_wrt (\<lambda>a b. top_soldCount b \<le> top_soldCount a) r \<and>
       distinct (map top_key r) \<and>
       length r = min n (card (doc_key ` set (tp_unwound T d))) \<and>
       list_all (\<lambda>e. \<exists>x xs rs.
           filter (\<lambda>x. doc_key x = top_key e) (tp_unwound T d) = x # xs \<and>
           top_product e = snd x \<and>
           top_soldCount e = sum_list (map (\<lambda>x. item_quantity (fst x)) (x # xs)) \<and>
           map (\<lambda>x. eng_toDouble eng (item_total (fst x))) (x # xs) = map Some rs \<and>
           top_revenue e = eng_toString eng (eng_sum eng rs)) r \<and>
       (\<forall>k\<in>doc_key ` set (tp_unwound T d). k \<notin> set (map top_key r) \<longrightarrow>
          list_all (\<lambda>e. sum_list (map (\<lambda>x. item_quantity (fst x))
                                (filter (\<lambda>x. doc_key x = k) (tp_unwound T d)))
                          \<le> top_soldCount e) r) \<and>
       (\<exists>ds. tp_converted eng (tp_unwound T d) = Some ds \<and>
          (\<forall>c. prefix (filter (\<lambda>e. top_soldCount e = c) r)
                 (map (project_top eng)
                    (filter (\<lambda>g. grp_soldCount g = c) (eng_emit eng (tp_groups eng ds)))))))"
proof -
  from pos conv obtain r where r: "getTopProducts eng T n d = Inr r"
    using getTopProducts_returns [of n T d eng] by (auto simp: list_all_iff)
  from getTopProducts_result [OF emit r] show ?thesis
    using r by blast
qed

theorem getTopProducts_sorted_by_soldCount_witness:
  "(\<forall>gs. mset (eng_emit example_engine gs) = mset gs) \<and>
   (0::nat) < 2 \<and>
   list_all (\<lambda>x. eng_toDouble example_engine (item_total (fst x)) \<noteq> None) (tp_unwound 1 rank_db) \<and>
   distinct (map tx_id (coll_transactions rank_db)) \<and>
   getTopProducts example_engine 1 2 rank_db = Inr rank_result \<and>
   length rank_result = 2 \<and>
   map top_soldCount rank_result = [5, 3] \<and>
   sorted_wrt (\<lambda>a b. top_soldCount b \<le> top_soldCount a) rank_result \<and>
   distinct (map top_key rank_result) \<and>
   1 \<in> doc_key ` set (tp_unwound 1 rank_db) \<and>
   1 \<notin> set (map top_key rank_result) \<and>
   list_all (\<lambda>e. sum_list (map (\<lambda>x. item_quantity (fst x))
                         (filter (\<lambda>x. doc_key x = 1) (tp_unwound 1 rank_db)))
                   \<le> top_soldCount e) rank_result"
proof -
  have h1: "\<forall>gs. mset (eng_emit example_engine gs) = mset gs"
    by (simp add: example_engine_def)
  have h2: "(0::nat) < 2" by simp
  have h3: "list_all (\<lambda>x. eng_toDouble example_engine (item_total (fst x)) \<noteq> None)
      (tp_unwound 1 rank_db)"
    by code_simp
  have h4: "distinct (map tx_id (coll_transactions rank_db))"
    by code_simp
  have e: "getTopProducts example_engine 1 2 rank_db = Inr rank_result"
    by code_simp
  have k: "1 \<in> doc_key ` set (tp_unwound 1 rank_db)"
    by code_simp
  have o: "1 \<notin> set (map top_key rank_result)" "length rank_result = 2"
    "map top_soldCount rank_result = [5, 3]"
    by (simp_all add: rank_result_def)
  from getTopProducts_sorted_by_soldCount [OF h1 h2 h3]
  obtain r where r: "getTopProducts example_engine 1 2 rank_db = Inr r"
    and s: "sorted_wrt (\<lambda>a b. top_soldCount b \<le> top_soldCount a) r"
      "distinct (map top_key r)"
    and d: "\<forall>k\<in>doc_key ` set (tp_unwound 1 rank_db). k \<notin> set (map top_key r) \<longrightarrow>
        list_all (\<lambda>e. sum_list (map (\<lambda>x. item_quantity (fst x))
                              (filter (\<lambda>x. doc_key x = k) (tp_unwound 1 rank_db)))
                        \<le> top_soldCount e) r"
    by blast
  from r e have rr: "r = rank_result" by simp
  from d k o(1) have "list_all (\<lambda>e. sum_list (map (\<lambda>x. item_quantity (fst x))
                         (filter (\<lambda>x. doc_key x = 1) (tp_unwound 1 rank_db)))
                   \<le> top_soldCount e) rank_result"
    unfolding rr by blast
  then show ?thesis
    using h1 h2 h3 h4 e k o s unfolding rr by blast
qed

text \<open>
  C7 as the specification states it fails: in \<open>tie_db\<close> products 2 and 1 both sold three
  units, and with an engine that emits groups in arrival order product 2 comes first;
  with the reverse emission order the same data gives the reverse sequence.
\<close>

theorem getTopProducts_ties_counterexample:
  "getTopProducts example_engine 1 5 tie_db = Inr tie_result \<and>
   \<not> ties_by_product_id tie_result \<and>
   getTopProducts (example_engine\<lparr>eng_emit := rev\<rparr>) 1 5 tie_db = Inr (rev tie_result)"
  by code_simp

section \<open>Proofs: tenant scope of the reads\<close>

text \<open>
  The other tenant-scoped reads, and the transactions \<open>getTransactions\<close> lists, carry the
  tenant they were asked for.
\<close>

lemma tenant_reads_scoped:
  "(\<forall>p\<in>set (getProducts T d). product_businessId p = T) \<and>
   (\<forall>p. getProduct i T d = Some p \<longrightarrow> product_businessId p = T) \<and>
   (\<forall>p\<in>set (getLowStockProducts T d). product_businessId p = T) \<and>
   (\<forall>c\<in>set (getCustomers T d). customer_businessId c = T) \<and>
   (\<forall>c. getCustomer i T d = Some c \<longrightarrow> customer_businessId c = T) \<and>
   (\<forall>c\<in>set (getCategories T d). category_businessId c = T) \<and>
   (\<forall>u\<in>set (getEmployees T d). user_businessId u = T) \<and>
   (\<forall>v\<in>set (getTransactions T limit d). tx_businessId (tv_transaction v) = T)"
proof -
  have f: "findOne q xs = Some x \<Longrightarrow> q x" for q :: "'a \<Rightarrow> bool" and xs x
    by (auto simp: findOne_def find_Some_iff)
  have 1: "\<forall>p. getProduct i T d = Some p \<longrightarrow> product_businessId p = T"
    unfolding getProduct_def using f by fastforce
  have 2: "\<forall>c. getCustomer i T d = Some c \<longrightarrow> customer_businessId c = T"
    unfolding getCustomer_def using f by fastforce
  have 3: "\<forall>v\<in>set (getTransactions T limit d). tx_businessId (tv_transaction v) = T"
  proof
    fix v assume "v \<in> set (getTransactions T limit d)"
    then obtain t where "v = project_transaction d t"
      "t \<in> set (sort_key (\<lambda>t. - tx_createdAt t)
                (filter (\<lambda>t. tx_businessId t = T) (coll_transactions d)))"
      by (auto simp: getTransactions_def Let_def split: option.splits if_splits
          dest: in_set_takeD)
    then show "tx_businessId (tv_transaction v) = T"
      by (simp add: project_transaction_def Let_def)
  qed
  have 4: "(\<forall>p\<in>set (getProducts T d). product_businessId p = T) \<and>
   (\<forall>p\<in>set (getLowStockProducts T d). product_businessId p = T) \<and>
   (\<forall>c\<in>set (getCustomers T d). customer_businessId c = T) \<and>
   (\<forall>c\<in>set (getCategories T d). category_businessId c = T) \<and>
   (\<forall>u\<in>set (getEmployees T d). user_businessId u = T)"
    by (auto simp: getProducts_def getLowStockProducts_def getCustomers_def
        getCategories_def getEmployees_def find_docs_def)
  show ?thesis using 1 2 3 4 by blast
qed

text \<open>
  C1 at a failing input. After business 2 created product 1 and a user of business 1
  posted a completed sale with an item for product id 1, \<open>getTopProducts(1, 5)\<close> returns
  that product, with \<open>businessId = 2\<close>: the \<open>$lookup\<close> into \<open>products\<close> joins on \<open>id\<close> alone.
  \<open>getProduct(1, 1)\<close> on the same store finds nothing.
\<close>

theorem getTopProducts_returns_foreign_product:
  "getTopProducts example_engine 1 5 leak_db =
     Inr [\<lparr>top_key = 1, top_product = mk_product 1 2 3 5, top_soldCount = 2,
           top_revenue = ''20''\<rparr>] \<and>
   product_businessId (mk_product 1 2 3 5) = 2 \<and>
   getProduct 1 1 leak_db = None \<and>
   getProduct 1 2 leak_db = Some (mk_product 1 2 3 5)"
  by code_simp

text \<open>
  The \<open>$lookup\<close> into \<open>customers\<close> of \<open>getTransactions\<close> joins on \<open>id\<close> alone as well: the
  transaction of business 1 comes back with the customer of business 2 embedded.
\<close>

lemma getTransactions_returns_foreign_customer:
  "map tv_customer (getTransactions 1 (Some 10) customer_leak_db) = [Some (mk_customer 1 2)] \<and>
   customer_businessId (mk_customer 1 2) = 2 \<and>
   getCustomer 1 1 customer_leak_db = None"
  by code_simp

end
